theory Spec2Isabelle
  imports Complex_Main "HOL-Library.Word"
begin

unbundle bit_operations_syntax

section \<open>HTU21D driver: data model\<close>

text \<open>
  A shallow embedding of \<^verbatim>\<open>htu21d.c\<close>, the ESP-IDF component for the HTU21D humidity and
  temperature sensor. C's \<^verbatim>\<open>uint8_t\<close>, \<^verbatim>\<open>uint16_t\<close> and \<^verbatim>\<open>uint32_t\<close> are words of that width;
  \<^verbatim>\<open>esp_err_t\<close> and the driver's \<^verbatim>\<open>int\<close> status codes are integers, which the code only
  compares and never computes with.
\<close>

type_synonym u8 = "8 word"
type_synonym u16 = "16 word"
type_synonym u32 = "32 word"
type_synonym esp_err_t = int

subsection \<open>Constants\<close>

text \<open>
  The error codes of ESP-IDF's \<^verbatim>\<open>esp_err.h\<close> and the read/write bit of \<^verbatim>\<open>driver/i2c.h\<close>.
  Both headers belong to the ESP-IDF framework, not to the component; the values are the
  framework's.
\<close>

definition ESP_OK :: esp_err_t where "ESP_OK = 0"
definition ESP_FAIL :: esp_err_t where "ESP_FAIL = - 1"
definition ESP_ERR_NO_MEM :: esp_err_t where "ESP_ERR_NO_MEM = 0x101"
definition ESP_ERR_INVALID_ARG :: esp_err_t where "ESP_ERR_INVALID_ARG = 0x102"
definition ESP_ERR_INVALID_STATE :: esp_err_t where "ESP_ERR_INVALID_STATE = 0x103"
definition ESP_ERR_TIMEOUT :: esp_err_t where "ESP_ERR_TIMEOUT = 0x107"

definition I2C_MASTER_WRITE :: u8 where "I2C_MASTER_WRITE = 0"
definition I2C_MASTER_READ :: u8 where "I2C_MASTER_READ = 1"

text \<open>
  The component's own header \<^verbatim>\<open>htu21d.h\<close>, as the README reproduces it: the sensor's bus
  address, its command bytes and the status codes the driver returns.
\<close>

definition HTU21D_ADDR :: u8 where "HTU21D_ADDR = 0x40"

definition TRIGGER_TEMP_MEASURE_HOLD :: u8 where "TRIGGER_TEMP_MEASURE_HOLD = 0xE3"
definition TRIGGER_HUMD_MEASURE_HOLD :: u8 where "TRIGGER_HUMD_MEASURE_HOLD = 0xE5"
definition TRIGGER_TEMP_MEASURE_NOHOLD :: u8 where "TRIGGER_TEMP_MEASURE_NOHOLD = 0xF3"
definition TRIGGER_HUMD_MEASURE_NOHOLD :: u8 where "TRIGGER_HUMD_MEASURE_NOHOLD = 0xF5"
definition WRITE_USER_REG :: u8 where "WRITE_USER_REG = 0xE6"
definition READ_USER_REG :: u8 where "READ_USER_REG = 0xE7"
definition SOFT_RESET :: u8 where "SOFT_RESET = 0xFE"

definition HTU21D_ERR_OK :: int where "HTU21D_ERR_OK = 0x00"
definition HTU21D_ERR_CONFIG :: int where "HTU21D_ERR_CONFIG = 0x01"
definition HTU21D_ERR_INSTALL :: int where "HTU21D_ERR_INSTALL = 0x02"
definition HTU21D_ERR_NOTFOUND :: int where "HTU21D_ERR_NOTFOUND = 0x03"
definition HTU21D_ERR_INVALID_ARG :: int where "HTU21D_ERR_INVALID_ARG = 0x04"
definition HTU21D_ERR_FAIL :: int where "HTU21D_ERR_FAIL = 0x05"
definition HTU21D_ERR_INVALID_STATE :: int where "HTU21D_ERR_INVALID_STATE = 0x06"
definition HTU21D_ERR_TIMEOUT :: int where "HTU21D_ERR_TIMEOUT = 0x07"

text \<open>\<^verbatim>\<open>#define HTU21_RESET_TIME (15)\<close> of \<^verbatim>\<open>htu21d.c\<close>, in milliseconds.\<close>

definition HTU21_RESET_TIME :: nat where "HTU21_RESET_TIME = 15"

subsection \<open>The bus and the sensor\<close>

text \<open>
  The I2C driver, the FreeRTOS delay and the sensor are outside the component. They are
  modelled as a \<open>world\<close> that the driver functions thread through: every call of an
  external function takes its outcome from the world and leaves an \<open>event\<close> in its trace.

  A command link is the list of the operations queued on it. An \<open>I2c_write\<close> carries the
  byte and the \<^verbatim>\<open>ack_en\<close> flag, an \<open>I2c_read\<close> the ack type (\<^verbatim>\<open>0x00\<close> ACK, \<^verbatim>\<open>0x01\<close> NACK).
\<close>

datatype i2c_op =
    I2c_start
  | I2c_write u8 bool
  | I2c_read u8
  | I2c_stop

text \<open>
  The observable actions: \<^verbatim>\<open>i2c_param_config\<close> (port, the two pins, the two pull-ups, the
  clock speed), \<^verbatim>\<open>i2c_driver_install\<close> (port), \<^verbatim>\<open>i2c_master_cmd_begin\<close> (port, the command
  link executed, the time-out in milliseconds), \<^verbatim>\<open>vTaskDelay\<close> (milliseconds) and the one
  \<^verbatim>\<open>ESP_LOGE\<close> message the measurement path depends on. The conversion of milliseconds to
  ticks by \<^verbatim>\<open>portTICK_PERIOD_MS\<close> and \<^verbatim>\<open>pdMS_TO_TICKS\<close> belongs to the FreeRTOS configuration
  and is not modelled; the other log lines, which have no effect on any result, are left
  out, and so is \<^verbatim>\<open>i2c_cmd_link_delete\<close>.
\<close>

datatype event =
    Param_config int int int int int nat
  | Driver_install int
  | Transfer int "i2c_op list" nat
  | Delay_ms nat
  | Log_error string

text \<open>
  \<^item> \<open>port\<close> is the file-scope variable \<^verbatim>\<open>_port\<close>.
  \<^item> \<open>config_ret\<close> and \<open>install_ret\<close> are what \<^verbatim>\<open>i2c_param_config\<close> and
    \<^verbatim>\<open>i2c_driver_install\<close> return.
  \<^item> \<open>link_ok k\<close> tells whether the \<open>k\<close>-th call of \<^verbatim>\<open>i2c_cmd_link_create\<close> returns a
    handle (\<open>False\<close>: it returns \<^verbatim>\<open>NULL\<close>); \<open>links\<close> counts the calls made so far.
  \<^item> \<open>xfer_ret k\<close> is what the \<open>k\<close>-th call of \<^verbatim>\<open>i2c_master_cmd_begin\<close> returns; \<open>xfers\<close>
    counts the calls made so far.
  \<^item> \<open>user_reg\<close>, \<open>pending\<close> and \<open>sample\<close> are the sensor: its user register, the last
    command byte it received, and the three bytes (data MSB, data LSB, checksum) with
    which it answers a read after a given measurement command.
  \<^item> \<open>trace\<close> is the list of events so far, oldest first.
\<close>

record world =
  port :: int
  config_ret :: esp_err_t
  install_ret :: esp_err_t
  link_ok :: "nat \<Rightarrow> bool"
  links :: nat
  xfer_ret :: "nat \<Rightarrow> esp_err_t"
  xfers :: nat
  user_reg :: u8
  pending :: u8
  sample :: "u8 \<Rightarrow> u8 \<times> u8 \<times> u8"
  trace :: "event list"

definition emit :: "event \<Rightarrow> world \<Rightarrow> world" where
  "emit e w = w\<lparr>trace := trace w @ [e]\<rparr>"

definition i2c_param_config ::
  "int \<Rightarrow> int \<Rightarrow> int \<Rightarrow> int \<Rightarrow> int \<Rightarrow> nat \<Rightarrow> world \<Rightarrow> esp_err_t \<times> world" where
  "i2c_param_config p sda scl sda_pullup scl_pullup clk w =
     (config_ret w, emit (Param_config p sda scl sda_pullup scl_pullup clk) w)"

definition i2c_driver_install :: "int \<Rightarrow> world \<Rightarrow> esp_err_t \<times> world" where
  "i2c_driver_install p w = (install_ret w, emit (Driver_install p) w)"

definition i2c_cmd_link_create :: "world \<Rightarrow> i2c_op list option \<times> world" where
  "i2c_cmd_link_create w =
     ((if link_ok w (links w) then Some [] else None), w\<lparr>links := links w + 1\<rparr>)"

text \<open>
  The functions that queue an operation on a command link. The driver passes their
  results to \<^verbatim>\<open>ESP_ERROR_CHECK_WITHOUT_ABORT\<close>, which logs and goes on, so the results are
  not part of the model.
\<close>

definition i2c_master_start :: "i2c_op list \<Rightarrow> i2c_op list" where
  "i2c_master_start cmd = cmd @ [I2c_start]"

definition i2c_master_write_byte :: "i2c_op list \<Rightarrow> u8 \<Rightarrow> bool \<Rightarrow> i2c_op list" where
  "i2c_master_write_byte cmd b ack_en = cmd @ [I2c_write b ack_en]"

definition i2c_master_read_byte :: "i2c_op list \<Rightarrow> u8 \<Rightarrow> i2c_op list" where
  "i2c_master_read_byte cmd ack = cmd @ [I2c_read ack]"

definition i2c_master_stop :: "i2c_op list \<Rightarrow> i2c_op list" where
  "i2c_master_stop cmd = cmd @ [I2c_stop]"

text \<open>The bytes a command link writes, and the number of bytes it reads.\<close>

fun written :: "i2c_op list \<Rightarrow> u8 list" where
  "written [] = []"
| "written (I2c_write b a # ops) = b # written ops"
| "written (_ # ops) = written ops"

fun reads :: "i2c_op list \<Rightarrow> nat" where
  "reads [] = 0"
| "reads (I2c_read a # ops) = Suc (reads ops)"
| "reads (_ # ops) = reads ops"

text \<open>
  The sensor, as the data sheet and the protocol section of the specification describe
  it. Addressed for reading, it sends the user register after \<^verbatim>\<open>READ_USER_REG\<close> and the
  three measurement bytes after any other command; a master that reads more bytes than
  the sensor sends sees the idle bus, \<^verbatim>\<open>0xFF\<close>. Addressed for writing, it remembers the
  command byte, and \<^verbatim>\<open>WRITE_USER_REG\<close> followed by a byte stores that byte in the user
  register. The address byte alone (the presence probe) changes nothing.
\<close>

definition sensor_reply :: "world \<Rightarrow> nat \<Rightarrow> u8 list" where
  "sensor_reply w n =
     take n ((if pending w = READ_USER_REG then [user_reg w]
              else (case sample w (pending w) of (msb, lsb, crc) \<Rightarrow> [msb, lsb, crc]))
             @ replicate n 0xFF)"

definition sensor :: "i2c_op list \<Rightarrow> world \<Rightarrow> u8 list \<times> world" where
  "sensor cmd w =
     (case written cmd of
        [] \<Rightarrow> ([], w)
      | a # bs \<Rightarrow>
          if a = (push_bit 1 HTU21D_ADDR OR I2C_MASTER_READ)
          then (sensor_reply w (reads cmd), w)
          else if a = (push_bit 1 HTU21D_ADDR OR I2C_MASTER_WRITE)
          then
            (case bs of
               [] \<Rightarrow> ([], w)
             | c # vs \<Rightarrow>
                 ([], if c = WRITE_USER_REG
                      then (case vs of
                              [] \<Rightarrow> w\<lparr>pending := c\<rparr>
                            | v # _ \<Rightarrow> w\<lparr>pending := c, user_reg := v\<rparr>)
                      else w\<lparr>pending := c\<rparr>))
          else ([], w))"

text \<open>
  \<^verbatim>\<open>i2c_master_cmd_begin\<close>: the call is recorded, its result is the one the world holds
  for it, and the sensor sees the transaction only when that result is \<^verbatim>\<open>ESP_OK\<close>. The
  function returns the result and the bytes read, in the order of the read operations.
\<close>

definition i2c_master_cmd_begin ::
  "int \<Rightarrow> i2c_op list \<Rightarrow> nat \<Rightarrow> world \<Rightarrow> esp_err_t \<times> u8 list \<times> world" where
  "i2c_master_cmd_begin p cmd timeout_ms w =
     (let ret = xfer_ret w (xfers w);
          w1 = emit (Transfer p cmd timeout_ms) (w\<lparr>xfers := xfers w + 1\<rparr>)
      in if ret = ESP_OK
         then (case sensor cmd w1 of (rx, w2) \<Rightarrow> (ret, rx, w2))
         else (ret, [], w1))"

definition vTaskDelay_ms :: "nat \<Rightarrow> world \<Rightarrow> world" where
  "vTaskDelay_ms ms w = emit (Delay_ms ms) w"

definition ESP_LOGE :: "string \<Rightarrow> world \<Rightarrow> world" where
  "ESP_LOGE msg w = emit (Log_error msg) w"

text \<open>
  The \<open>i\<close>-th byte a transaction has read (the C code reads it through the pointer it gave
  to \<^verbatim>\<open>i2c_master_read_byte\<close>). A successful transaction delivers every byte it asked for.
\<close>

definition rx_byte :: "u8 list \<Rightarrow> nat \<Rightarrow> u8" where
  "rx_byte rx i = (if i < length rx then rx ! i else 0)"

section \<open>The driver functions\<close>

subsection \<open>CRC verifier\<close>

text \<open>
  The loop of \<^verbatim>\<open>is_crc_valid\<close>, \<^verbatim>\<open>for (int i = 0; i < 16; i++)\<close>, with the loop counter and
  the two variables the body updates. The counter runs from 0 to 16, so a natural number
  holds it.
\<close>

function crc_loop :: "nat \<Rightarrow> u32 \<Rightarrow> u32 \<Rightarrow> u32" where
  "crc_loop i row divisor =
     (if i < 16
      then crc_loop (i + 1)
             (if row AND push_bit (23 - i) 1 \<noteq> 0 then row XOR divisor else row)
             (drop_bit 1 divisor)
      else row)"
  by pat_completeness auto
termination
  by (relation "measure (\<lambda>(i, row, divisor). 16 - i)") auto

declare crc_loop.simps [simp del]

definition is_crc_valid :: "u16 \<Rightarrow> u8 \<Rightarrow> bool" where
  "is_crc_valid value crc =
     (let row = push_bit 8 (ucast value :: u32);
          row = row OR ucast crc;
          divisor = (0x988000 :: u32)
      in crc_loop 0 row divisor = 0)"

subsection \<open>Measurement trigger and read\<close>

text \<open>
  \<^verbatim>\<open>read_value\<close>: the command transaction, the 50 ms wait, the three-byte read
  transaction, the CRC check (whose failure is logged and nothing else) and the mask.
  Every \<^verbatim>\<open>return\<close> of the C function is a branch here.
\<close>

definition read_value :: "u8 \<Rightarrow> world \<Rightarrow> u16 \<times> world" where
  "read_value command w =
     (case i2c_cmd_link_create w of
        (None, w1) \<Rightarrow> (0, w1)
      | (Some cmd, w1) \<Rightarrow>
          (let cmd = i2c_master_start cmd;
               cmd = i2c_master_write_byte cmd (push_bit 1 HTU21D_ADDR OR I2C_MASTER_WRITE) True;
               cmd = i2c_master_write_byte cmd command True;
               cmd = i2c_master_stop cmd
           in case i2c_master_cmd_begin (port w1) cmd 1000 w1 of
                (ret, rx, w2) \<Rightarrow>
                  if ret \<noteq> ESP_OK then (0, w2)
                  else
                    (let w3 = vTaskDelay_ms 50 w2
                     in case i2c_cmd_link_create w3 of
                          (None, w4) \<Rightarrow> (0, w4)
                        | (Some cmd, w4) \<Rightarrow>
                            (let cmd = i2c_master_start cmd;
                                 cmd = i2c_master_write_byte cmd
                                         (push_bit 1 HTU21D_ADDR OR I2C_MASTER_READ) True;
                                 cmd = i2c_master_read_byte cmd 0x00;
                                 cmd = i2c_master_read_byte cmd 0x00;
                                 cmd = i2c_master_read_byte cmd 0x01;
                                 cmd = i2c_master_stop cmd
                             in case i2c_master_cmd_begin (port w4) cmd 1000 w4 of
                                  (ret, rx, w5) \<Rightarrow>
                                    if ret \<noteq> ESP_OK then (0, w5)
                                    else
                                      (let msb = rx_byte rx 0;
                                           lsb = rx_byte rx 1;
                                           crc = rx_byte rx 2;
                                           raw_value = push_bit 8 (ucast msb :: u16) OR ucast lsb;
                                           w6 = (if \<not> is_crc_valid raw_value crc
                                                 then ESP_LOGE ''CRC is invalid.'' w5 else w5)
                                       in (raw_value AND 0xFFFC, w6))))))"

text \<open>
  The queueing calls \<^verbatim>\<open>i2c_master_start\<close>, \<^verbatim>\<open>i2c_master_write_byte\<close>, \<^verbatim>\<open>i2c_master_read_byte\<close>
  and \<^verbatim>\<open>i2c_master_stop\<close> return an \<^verbatim>\<open>esp_err_t\<close> of their own; a call that fails appends
  nothing to the command link. \<^verbatim>\<open>read_value\<close> hands each result to
  \<^verbatim>\<open>ESP_ERROR_CHECK_WITHOUT_ABORT\<close>, which logs and goes on. The definition above is the case
  in which all of them return \<^verbatim>\<open>ESP_OK\<close>. \<open>read_value_queued\<close> is the same function with the
  results of its ten queueing calls made explicit: \<open>q k\<close> is the result of the \<open>k\<close>-th call in
  program order (0 to 3 build the command transaction, 4 to 9 the read transaction), and
  \<open>locals\<close> are the indeterminate initial contents of \<^verbatim>\<open>msb\<close>, \<^verbatim>\<open>lsb\<close> and \<^verbatim>\<open>crc\<close>, which a read
  that was never queued leaves as they are.
\<close>

definition queue_op :: "esp_err_t \<Rightarrow> i2c_op \<Rightarrow> i2c_op list \<Rightarrow> i2c_op list" where
  "queue_op ret op cmd = (if ret = ESP_OK then cmd @ [op] else cmd)"

text \<open>
  The variable a read was to fill, after the transaction: the next byte received when the
  read was queued, the old content otherwise.
\<close>

definition stored :: "esp_err_t \<Rightarrow> u8 \<Rightarrow> u8 list \<Rightarrow> u8 \<times> u8 list" where
  "stored ret old rx = (if ret = ESP_OK then (rx_byte rx 0, drop 1 rx) else (old, rx))"

definition read_value_queued ::
  "(nat \<Rightarrow> esp_err_t) \<Rightarrow> u8 \<times> u8 \<times> u8 \<Rightarrow> u8 \<Rightarrow> world \<Rightarrow> u16 \<times> world" where
  "read_value_queued q locals command w =
     (case i2c_cmd_link_create w of
        (None, w1) \<Rightarrow> (0, w1)
      | (Some cmd, w1) \<Rightarrow>
          (let cmd = queue_op (q 0) I2c_start cmd;
               cmd = queue_op (q 1)
                       (I2c_write (push_bit 1 HTU21D_ADDR OR I2C_MASTER_WRITE) True) cmd;
               cmd = queue_op (q 2) (I2c_write command True) cmd;
               cmd = queue_op (q 3) I2c_stop cmd
           in case i2c_master_cmd_begin (port w1) cmd 1000 w1 of
                (ret, rx, w2) \<Rightarrow>
                  if ret \<noteq> ESP_OK then (0, w2)
                  else
                    (let w3 = vTaskDelay_ms 50 w2
                     in case i2c_cmd_link_create w3 of
                          (None, w4) \<Rightarrow> (0, w4)
                        | (Some cmd, w4) \<Rightarrow>
                            (let cmd = queue_op (q 4) I2c_start cmd;
                                 cmd = queue_op (q 5)
                                         (I2c_write (push_bit 1 HTU21D_ADDR OR I2C_MASTER_READ) True)
                                         cmd;
                                 cmd = queue_op (q 6) (I2c_read 0x00) cmd;
                                 cmd = queue_op (q 7) (I2c_read 0x00) cmd;
                                 cmd = queue_op (q 8) (I2c_read 0x01) cmd;
                                 cmd = queue_op (q 9) I2c_stop cmd
                             in case i2c_master_cmd_begin (port w4) cmd 1000 w4 of
                                  (ret, rx, w5) \<Rightarrow>
                                    if ret \<noteq> ESP_OK then (0, w5)
                                    else
                                      (case locals of
                                         (msb0, lsb0, crc0) \<Rightarrow>
                                           (case stored (q 6) msb0 rx of
                                              (msb, rx) \<Rightarrow>
                                                (case stored (q 7) lsb0 rx of
                                                   (lsb, rx) \<Rightarrow>
                                                     (case stored (q 8) crc0 rx of
                                                        (crc, rx) \<Rightarrow>
                                                          (let raw_value =
                                                                 push_bit 8 (ucast msb :: u16)
                                                                   OR ucast lsb;
                                                               w6 = (if \<not> is_crc_valid raw_value crc
                                                                     then ESP_LOGE
                                                                            ''CRC is invalid.'' w5
                                                                     else w5)
                                                           in (raw_value AND 0xFFFC, w6))))))))))"

subsection \<open>Unit conversion of a reading\<close>

text \<open>
  The C code evaluates the formula in \<^verbatim>\<open>double\<close> and returns a \<^verbatim>\<open>float\<close>. A floating-point
  number is modelled as the real number it denotes, and every operation rounds its exact
  result to the nearest number with a significand of \<open>p\<close> bits, ties to even
  (IEEE 754 binary64 has \<open>p = 53\<close>, binary32 has \<open>p = 24\<close>). The limits of the exponent range
  are not modelled: every value that occurs in the two formulas is zero or has a magnitude
  between \<open>2 powi (- 60)\<close> and \<open>2 powi 24\<close>, far from overflow and from the subnormal numbers.
\<close>

definition round_half_even :: "real \<Rightarrow> int" where
  "round_half_even y =
     (let f = \<lfloor>y\<rfloor>; d = y - of_int f
      in if d < 1 / 2 then f else if 1 / 2 < d then f + 1 else if even f then f else f + 1)"

text \<open>The exponent of \<open>x \<noteq> 0\<close>: the \<open>e\<close> with \<open>2\<^sup>e \<le> \<bar>x\<bar> < 2\<^sup>e\<^sup>+\<^sup>1\<close>.\<close>

definition expo :: "real \<Rightarrow> int" where
  "expo x = \<lfloor>log 2 \<bar>x\<bar>\<rfloor>"

definition round_to :: "nat \<Rightarrow> real \<Rightarrow> real" where
  "round_to p x =
     (if x = 0 then 0
      else (let u = 2 powi (expo x - int p + 1) in u * of_int (round_half_even (x / u))))"

text \<open>
  Conversion to \<^verbatim>\<open>double\<close> (of an integer or of a decimal literal) and to \<^verbatim>\<open>float\<close>, and the
  three \<^verbatim>\<open>double\<close> operators of the formulas.
\<close>

definition to_double :: "real \<Rightarrow> real" where
  "to_double x = round_to 53 x"

definition to_float :: "real \<Rightarrow> real" where
  "to_float x = round_to 24 x"

definition double_mul :: "real \<Rightarrow> real \<Rightarrow> real" where
  "double_mul a b = to_double (a * b)"

definition double_div :: "real \<Rightarrow> real \<Rightarrow> real" where
  "double_div a b = to_double (a / b)"

definition double_sub :: "real \<Rightarrow> real \<Rightarrow> real" where
  "double_sub a b = to_double (a - b)"

text \<open>
  The two public read functions. \<^verbatim>\<open>(raw * 175.72 / 65536.0) - 46.85\<close> converts the raw word
  to \<^verbatim>\<open>double\<close>, multiplies, divides and subtracts in \<^verbatim>\<open>double\<close>, and the \<^verbatim>\<open>return\<close> narrows the
  result to \<^verbatim>\<open>float\<close>; \<^verbatim>\<open>return -999\<close> converts the integer to \<^verbatim>\<open>float\<close>. The guard on the raw
  value is as in the source.
\<close>

definition htu21d_read_temperature :: "world \<Rightarrow> real \<times> world" where
  "htu21d_read_temperature w =
     (case read_value TRIGGER_TEMP_MEASURE_NOHOLD w of
        (raw_temperature, w1) \<Rightarrow>
          if raw_temperature = 0 then (to_float (- 999), w1)
          else (to_float
                  (double_sub
                     (double_div
                        (double_mul (to_double (real (unat raw_temperature))) (to_double 175.72))
                        (to_double 65536.0))
                     (to_double 46.85)), w1))"

definition htu21d_read_humidity :: "world \<Rightarrow> real \<times> world" where
  "htu21d_read_humidity w =
     (case read_value TRIGGER_HUMD_MEASURE_NOHOLD w of
        (raw_humidity, w1) \<Rightarrow>
          if raw_humidity = 0 then (to_float (- 999), w1)
          else (to_float
                  (double_sub
                     (double_div
                        (double_mul (to_double (real (unat raw_humidity))) (to_double 125.0))
                        (to_double 65536.0))
                     (to_double 6.0)), w1))"

subsection \<open>Register access\<close>

definition htu21d_read_user_register :: "world \<Rightarrow> u8 \<times> world" where
  "htu21d_read_user_register w =
     (case i2c_cmd_link_create w of
        (None, w1) \<Rightarrow> (0, w1)
      | (Some cmd, w1) \<Rightarrow>
          (let cmd = i2c_master_start cmd;
               cmd = i2c_master_write_byte cmd (push_bit 1 HTU21D_ADDR OR I2C_MASTER_WRITE) True;
               cmd = i2c_master_write_byte cmd READ_USER_REG True;
               cmd = i2c_master_stop cmd
           in case i2c_master_cmd_begin (port w1) cmd 1000 w1 of
                (ret, rx, w2) \<Rightarrow>
                  if ret \<noteq> ESP_OK then (0, w2)
                  else
                    (case i2c_cmd_link_create w2 of
                       (None, w3) \<Rightarrow> (0, w3)
                     | (Some cmd, w3) \<Rightarrow>
                         (let cmd = i2c_master_start cmd;
                              cmd = i2c_master_write_byte cmd
                                      (push_bit 1 HTU21D_ADDR OR I2C_MASTER_READ) True;
                              cmd = i2c_master_read_byte cmd 0x01;
                              cmd = i2c_master_stop cmd
                          in case i2c_master_cmd_begin (port w3) cmd 1000 w3 of
                               (ret, rx, w4) \<Rightarrow>
                                 if ret \<noteq> ESP_OK then (0, w4)
                                 else (rx_byte rx 0, w4)))))"

text \<open>
  The \<^verbatim>\<open>switch (ret)\<close> of the write path has four cases and no \<^verbatim>\<open>default\<close>; every other value
  of \<^verbatim>\<open>ret\<close> falls through to the final \<^verbatim>\<open>return HTU21D_ERR_OK\<close>.
\<close>

definition htu21d_write_user_register :: "u8 \<Rightarrow> world \<Rightarrow> int \<times> world" where
  "htu21d_write_user_register v w =
     (case i2c_cmd_link_create w of
        (None, w1) \<Rightarrow> (HTU21D_ERR_FAIL, w1)
      | (Some cmd, w1) \<Rightarrow>
          (let cmd = i2c_master_start cmd;
               cmd = i2c_master_write_byte cmd (push_bit 1 HTU21D_ADDR OR I2C_MASTER_WRITE) True;
               cmd = i2c_master_write_byte cmd WRITE_USER_REG True;
               cmd = i2c_master_write_byte cmd v True;
               cmd = i2c_master_stop cmd
           in case i2c_master_cmd_begin (port w1) cmd 1000 w1 of
                (ret, rx, w2) \<Rightarrow>
                  if ret = ESP_ERR_INVALID_ARG then (HTU21D_ERR_INVALID_ARG, w2)
                  else if ret = ESP_FAIL then (HTU21D_ERR_FAIL, w2)
                  else if ret = ESP_ERR_INVALID_STATE then (HTU21D_ERR_INVALID_STATE, w2)
                  else if ret = ESP_ERR_TIMEOUT then (HTU21D_ERR_TIMEOUT, w2)
                  else (HTU21D_ERR_OK, w2)))"

definition htu21d_get_resolution :: "world \<Rightarrow> u8 \<times> world" where
  "htu21d_get_resolution w =
     (case htu21d_read_user_register w of
        (reg_value, w1) \<Rightarrow> (reg_value AND 0b10000001, w1))"

definition htu21d_set_resolution :: "u8 \<Rightarrow> world \<Rightarrow> int \<times> world" where
  "htu21d_set_resolution resolution w =
     (case htu21d_read_user_register w of
        (reg_value, w1) \<Rightarrow>
          (let reg_value = reg_value AND 0b10000001;
               resolution = resolution AND 0b10000001;
               reg_value = reg_value OR resolution
           in htu21d_write_user_register reg_value w1))"

subsection \<open>Lifecycle\<close>

text \<open>
  \<^verbatim>\<open>htu21d_soft_reset\<close> has the same four-case \<^verbatim>\<open>switch\<close>; what follows it is the delay of
  \<^verbatim>\<open>HTU21_RESET_TIME\<close> milliseconds and \<^verbatim>\<open>return HTU21D_ERR_OK\<close>.
\<close>

definition htu21d_soft_reset :: "world \<Rightarrow> int \<times> world" where
  "htu21d_soft_reset w =
     (case i2c_cmd_link_create w of
        (None, w1) \<Rightarrow> (HTU21D_ERR_FAIL, w1)
      | (Some cmd, w1) \<Rightarrow>
          (let cmd = i2c_master_start cmd;
               cmd = i2c_master_write_byte cmd (push_bit 1 HTU21D_ADDR OR I2C_MASTER_WRITE) True;
               cmd = i2c_master_write_byte cmd SOFT_RESET True;
               cmd = i2c_master_stop cmd
           in case i2c_master_cmd_begin (port w1) cmd 1000 w1 of
                (ret, rx, w2) \<Rightarrow>
                  if ret = ESP_ERR_INVALID_ARG then (HTU21D_ERR_INVALID_ARG, w2)
                  else if ret = ESP_FAIL then (HTU21D_ERR_FAIL, w2)
                  else if ret = ESP_ERR_INVALID_STATE then (HTU21D_ERR_INVALID_STATE, w2)
                  else if ret = ESP_ERR_TIMEOUT then (HTU21D_ERR_TIMEOUT, w2)
                  else (HTU21D_ERR_OK, vTaskDelay_ms HTU21_RESET_TIME w2)))"

definition htu21d_init :: "int \<Rightarrow> int \<Rightarrow> int \<Rightarrow> int \<Rightarrow> int \<Rightarrow> world \<Rightarrow> int \<times> world" where
  "htu21d_init p sda_pin scl_pin sda_internal_pullup scl_internal_pullup w =
     (let w0 = w\<lparr>port := p\<rparr>
      in case i2c_param_config p sda_pin scl_pin sda_internal_pullup scl_internal_pullup 100000 w0 of
           (ret, w1) \<Rightarrow>
             if ret \<noteq> ESP_OK then (HTU21D_ERR_CONFIG, w1)
             else
               (case i2c_driver_install p w1 of
                  (ret, w2) \<Rightarrow>
                    if ret \<noteq> ESP_OK then (HTU21D_ERR_INSTALL, w2)
                    else
                      (case i2c_cmd_link_create w2 of
                         (None, w3) \<Rightarrow> (HTU21D_ERR_FAIL, w3)
                       | (Some cmd, w3) \<Rightarrow>
                           (let cmd = i2c_master_start cmd;
                                cmd = i2c_master_write_byte cmd
                                        (push_bit 1 HTU21D_ADDR OR I2C_MASTER_WRITE) True;
                                cmd = i2c_master_stop cmd
                            in case i2c_master_cmd_begin p cmd 1000 w3 of
                                 (ret, rx, w4) \<Rightarrow>
                                   if ret \<noteq> ESP_OK then (HTU21D_ERR_NOTFOUND, w4)
                                   else
                                     (case htu21d_soft_reset w4 of
                                        (ret, w5) \<Rightarrow>
                                          if ret \<noteq> HTU21D_ERR_OK then (ret, w5)
                                          else (HTU21D_ERR_OK, w5))))))"

section \<open>Notions used to state the properties\<close>

subsection \<open>Polynomials over GF(2)\<close>

text \<open>
  A natural number stands for the polynomial over GF(2) whose coefficients are its bits:
  \<open>0x131\<close> is \<open>x\<^sup>8 + x\<^sup>5 + x\<^sup>4 + 1\<close>. Addition of polynomials is \<open>XOR\<close>, and \<open>clmul\<close> is their
  product (multiplication without carries). A message \<open>m\<close> leaves remainder zero on
  division by a generator \<open>g\<close> exactly when \<open>m\<close> is a multiple of \<open>g\<close>, that is when
  \<open>clmul q g = m\<close> for some quotient \<open>q\<close>.
\<close>

fun clmul :: "nat \<Rightarrow> nat \<Rightarrow> nat" where
  "clmul a b = (if a = 0 then 0 else (if odd a then b else 0) XOR 2 * clmul (a div 2) b)"

declare clmul.simps [simp del]

subsection \<open>Outcomes of the coming bus calls\<close>

text \<open>
  \<open>read_ok w\<close>: the next two command links can be allocated and the next two
  transactions succeed, which is what \<^verbatim>\<open>read_value\<close> needs to reach its last line.
\<close>

definition read_ok :: "world \<Rightarrow> bool" where
  "read_ok w =
     (link_ok w (links w) \<and> xfer_ret w (xfers w) = ESP_OK \<and>
      link_ok w (links w + 1) \<and> xfer_ret w (xfers w + 1) = ESP_OK)"

text \<open>The two transactions of \<^verbatim>\<open>read_value\<close>, as they appear in the trace.\<close>

definition trigger_cmd :: "u8 \<Rightarrow> i2c_op list" where
  "trigger_cmd command = [I2c_start, I2c_write 0x80 True, I2c_write command True, I2c_stop]"

definition fetch_cmd :: "i2c_op list" where
  "fetch_cmd = [I2c_start, I2c_write 0x81 True, I2c_read 0x00, I2c_read 0x00, I2c_read 0x01,
                I2c_stop]"

text \<open>
  The presence probe of \<^verbatim>\<open>htu21d_init\<close> and the world it leaves when the bus has been
  configured, the driver installed and the probe executed with result \<^verbatim>\<open>ESP_OK\<close> or not:
  the sensor is untouched either way.
\<close>

definition probe_cmd :: "i2c_op list" where
  "probe_cmd = [I2c_start, I2c_write 0x80 True, I2c_stop]"

definition probed :: "int \<Rightarrow> int \<Rightarrow> int \<Rightarrow> int \<Rightarrow> int \<Rightarrow> world \<Rightarrow> world" where
  "probed p sda scl sda_pullup scl_pullup w =
     w\<lparr>port := p, links := links w + 1, xfers := xfers w + 1,
       trace := trace w @ [Param_config p sda scl sda_pullup scl_pullup 100000,
                           Driver_install p, Transfer p probe_cmd 1000]\<rparr>"

definition reset_cmd :: "i2c_op list" where
  "reset_cmd = [I2c_start, I2c_write 0x80 True, I2c_write SOFT_RESET True, I2c_stop]"

text \<open>An event that puts the soft-reset command on the bus.\<close>

fun sends_reset :: "event \<Rightarrow> bool" where
  "sends_reset (Transfer p cmd t) = (SOFT_RESET \<in> set (written cmd))"
| "sends_reset _ = False"

text \<open>
  A world in which every call succeeds: the sensor holds the user register's value after
  reset, \<^verbatim>\<open>0x02\<close>, and answers every measurement with the data sheet's example reading
  \<^verbatim>\<open>0x683A\<close> and its checksum \<^verbatim>\<open>0x7C\<close>.
\<close>

definition nominal :: world where
  "nominal =
     \<lparr>port = 0, config_ret = ESP_OK, install_ret = ESP_OK,
      link_ok = (\<lambda>k. True), links = 0,
      xfer_ret = (\<lambda>k. ESP_OK), xfers = 0,
      user_reg = 0x02, pending = 0,
      sample = (\<lambda>c. (0x68, 0x3A, 0x7C)), trace = []\<rparr>"

text \<open>
  The same world with a sensor whose measurement is the all-zero word, with the checksum
  \<^verbatim>\<open>0x00\<close> that belongs to it.
\<close>

definition zero_reading :: world where
  "zero_reading = nominal\<lparr>sample := (\<lambda>c. (0, 0, 0))\<rparr>"

text \<open>
  A sensor whose measurement is the word \<^verbatim>\<open>0x0004\<close>, the smallest nonzero reading that
  survives the mask, with its checksum \<^verbatim>\<open>0xC4\<close>.
\<close>

definition faint_reading :: world where
  "faint_reading = nominal\<lparr>sample := (\<lambda>c. (0x00, 0x04, 0xC4))\<rparr>"

text \<open>
  Results of the queueing calls in which \<^verbatim>\<open>i2c_master_stop\<close> of the command transaction,
  call number 3, runs out of memory and every other call succeeds.
\<close>

definition stop_fails :: "nat \<Rightarrow> esp_err_t" where
  "stop_fails k = (if k = 3 then ESP_ERR_NO_MEM else ESP_OK)"

section \<open>CRC verifier: correctness\<close>

subsection \<open>Carry-less multiplication\<close>

lemma clmul_0 [simp]: "clmul 0 g = 0"
  by (simp add: clmul.simps)

lemma clmul_rec: "clmul a g = (if odd a then g else 0) XOR 2 * clmul (a div 2) g"
  by (cases "a = 0") (simp_all add: clmul.simps [of a])

lemma xor_div2: "(a XOR b) div 2 = a div 2 XOR b div (2::nat)"
  using drop_bit_xor [of 1 a b] by (simp add: drop_bit_eq_div)

lemma xor_double: "2 * (a XOR b) = 2 * a XOR 2 * (b::nat)"
  using push_bit_xor [of 1 a b] by (simp add: push_bit_eq_mult mult.commute)

lemma xor_cancel: "g XOR (g XOR x) = (x::nat)"
  by (simp add: xor.assoc [symmetric])

lemma clmul_1 [simp]: "clmul (Suc 0) g = g"
  by (subst clmul_rec) simp

lemma clmul_xor: "clmul (a XOR b) g = clmul a g XOR clmul b g"
proof (induction "a + b" arbitrary: a b rule: less_induct)
  case less
  show ?case
  proof (cases "a = 0 \<and> b = 0")
    case True
    then show ?thesis by simp
  next
    case False
    then have "a div 2 + b div 2 < a + b" by linarith
    then have IH: "clmul (a div 2 XOR b div 2) g = clmul (a div 2) g XOR clmul (b div 2) g"
      by (rule less)
    have "clmul (a XOR b) g = (if odd (a XOR b) then g else 0) XOR 2 * clmul ((a XOR b) div 2) g"
      by (rule clmul_rec)
    also have "\<dots> = (if odd a \<noteq> odd b then g else 0) XOR (2 * clmul (a div 2) g XOR 2 * clmul (b div 2) g)"
      by (simp add: xor_div2 IH xor_double even_xor_iff)
    also have "\<dots> = ((if odd a then g else 0) XOR 2 * clmul (a div 2) g) XOR ((if odd b then g else 0) XOR 2 * clmul (b div 2) g)"
      by (simp add: ac_simps xor_cancel)
    also have "\<dots> = clmul a g XOR clmul b g"
      by (simp only: clmul_rec [symmetric])
    finally show ?thesis .
  qed
qed

lemma clmul_pow2: "clmul (2 ^ k) g = 2 ^ k * g"
proof (induction k)
  case 0
  show ?case by simp
next
  case (Suc k)
  show ?case by (subst clmul_rec) (simp add: Suc)
qed

lemma xor_ge_pow2:
  fixes a b :: nat
  assumes "2 ^ k \<le> a" "b < 2 ^ k"
  shows "2 ^ k \<le> a XOR b"
proof -
  have "drop_bit k b = 0"
    using assms(2) by (simp add: drop_bit_eq_div)
  then have "drop_bit k (a XOR b) = drop_bit k a"
    by (simp add: drop_bit_xor)
  moreover have "drop_bit k a \<noteq> 0"
    using assms(1) by (simp add: drop_bit_eq_div div_greater_zero_iff)
  ultimately have "(a XOR b) div 2 ^ k \<noteq> 0"
    by (simp add: drop_bit_eq_div)
  then show ?thesis
    by (simp add: div_eq_0_iff not_less)
qed

lemma clmul_ge:
  assumes "2 ^ d \<le> g" "g < 2 ^ Suc d" "q \<noteq> 0"
  shows "2 ^ d \<le> clmul q g"
  using assms(3)
proof (induction q rule: less_induct)
  case (less q)
  show ?case
  proof (cases "q div 2 = 0")
    case True
    with less.prems have "q = 1" by linarith
    then show ?thesis using assms(1) by simp
  next
    case False
    then have "2 ^ d \<le> clmul (q div 2) g"
      using less.IH [of "q div 2"] less.prems by simp
    then have big: "2 ^ Suc d \<le> 2 * clmul (q div 2) g" by simp
    have "2 ^ Suc d \<le> 2 * clmul (q div 2) g XOR (if odd q then g else 0)"
      by (rule xor_ge_pow2 [OF big]) (use assms(2) in simp)
    then show ?thesis
      by (subst clmul_rec) (simp add: ac_simps)
  qed
qed

lemma clmul_not_pow2:
  assumes "2 ^ d \<le> g" "g < 2 ^ Suc d" "0 < d" "odd g"
  shows "clmul q g \<noteq> 2 ^ k"
proof (induction k arbitrary: q)
  case 0
  show ?case
  proof (cases "q = 0")
    case True then show ?thesis by simp
  next
    case False
    from clmul_ge [OF assms(1,2) False] have "2 ^ d \<le> clmul q g" .
    moreover have "(2::nat) ^ d > 1" using one_less_power [of "2::nat" d] assms(3) by simp
    ultimately show ?thesis by simp
  qed
next
  case (Suc k)
  show ?case
  proof (cases "odd q")
    case True
    have "odd (clmul q g)"
      by (subst clmul_rec) (simp add: True assms(4) even_xor_iff)
    then show ?thesis by auto
  next
    case False
    then have "clmul q g = 2 * clmul (q div 2) g"
      by (subst clmul_rec) simp
    then show ?thesis using Suc [of "q div 2"] by simp
  qed
qed

subsection \<open>The top bit of a bounded number\<close>

lemma div_pow2_top:
  fixes r :: nat
  assumes "2 ^ k \<le> r" "r < 2 ^ Suc k"
  shows "r div 2 ^ k = 1"
proof -
  have "r div 2 ^ k < 2"
    using assms(2) by (simp add: less_mult_imp_div_less mult.commute)
  moreover have "0 < r div 2 ^ k"
    using assms(1) by (simp add: div_greater_zero_iff)
  ultimately show ?thesis by linarith
qed

lemma bit_top_iff:
  fixes r :: nat
  assumes "r < 2 ^ Suc k"
  shows "bit r k \<longleftrightarrow> 2 ^ k \<le> r"
proof (cases "2 ^ k \<le> r")
  case True
  then show ?thesis
    using div_pow2_top [OF True assms] by (simp add: bit_iff_odd)
next
  case False
  then show ?thesis by (simp add: bit_iff_odd)
qed

lemma xor_top_cancel:
  fixes a b :: nat
  assumes "2 ^ k \<le> a" "a < 2 ^ Suc k" "2 ^ k \<le> b" "b < 2 ^ Suc k"
  shows "a XOR b < 2 ^ k"
proof -
  have "drop_bit k (a XOR b) = drop_bit k a XOR drop_bit k b"
    by (simp add: drop_bit_xor)
  also have "\<dots> = 0"
    using div_pow2_top [OF assms(1,2)] div_pow2_top [OF assms(3,4)]
    by (simp add: drop_bit_eq_div)
  finally show ?thesis
    by (simp add: drop_bit_eq_div div_eq_0_iff)
qed

subsection \<open>The loop invariant\<close>

text \<open>
  Before iteration \<open>i\<close> the divisor is the generator shifted to bit \<open>23 - i\<close>, the row is below
  \<open>2 ^ (24 - i)\<close>, and the row differs from the message by a multiple of the generator.
\<close>

lemma unat_divisor:
  assumes "i < 16"
  shows "unat (drop_bit i (0x988000 :: u32)) = 2 ^ (15 - i) * 0x131"
proof -
  have "(2::nat) ^ 15 = 2 ^ (15 - i + i)"
    using assms by simp
  also have "\<dots> = 2 ^ (15 - i) * 2 ^ i"
    by (rule power_add)
  finally have p: "(2::nat) ^ 15 = 2 ^ (15 - i) * 2 ^ i" .
  have "(0x988000 :: nat) = 0x131 * 2 ^ 15"
    by simp
  also have "\<dots> = (2 ^ (15 - i) * 0x131) * 2 ^ i"
    by (simp only: p ac_simps)
  finally have q: "(0x988000 :: nat) div 2 ^ i = 2 ^ (15 - i) * 0x131"
    by (simp only: nonzero_mult_div_cancel_right power_eq_0_iff) simp
  have "unat (drop_bit i (0x988000 :: u32)) = drop_bit i (unat (0x988000 :: u32))"
    by (rule unat_drop_bit_eq)
  also have "unat (0x988000 :: u32) = 0x988000"
    by simp
  finally show ?thesis
    by (simp only: drop_bit_eq_div q)
qed

lemma crc_step:
  fixes row :: u32
  assumes "i < 16" "unat row < 2 ^ (24 - i)"
  defines "row' \<equiv> (if row AND push_bit (23 - i) 1 \<noteq> 0
                     then row XOR drop_bit i 0x988000 else row)"
  shows "unat row' < 2 ^ (23 - i)" and "\<exists>q. unat row' XOR unat row = clmul q 0x131"
proof -
  let ?k = "23 - i"
  have k: "24 - i = Suc ?k" using assms(1) by simp
  have bound: "unat row < 2 ^ Suc ?k" using assms(2) k by simp
  have test: "row AND push_bit ?k 1 \<noteq> 0 \<longleftrightarrow> 2 ^ ?k \<le> unat row"
    using bit_top_iff [OF bound]
    by (simp add: and_exp_eq_0_iff_not_bit bit_unsigned_iff)
  have d: "unat (drop_bit i (0x988000 :: u32)) = 2 ^ (15 - i) * 0x131"
    by (rule unat_divisor [OF assms(1)])
  have e: "(23::nat) - i = (15 - i) + 8" using assms(1) by simp
  have p: "(2::nat) ^ ?k = 2 ^ (15 - i) * 256"
    unfolding e power_add by simp
  show "unat row' < 2 ^ ?k"
  proof (cases "2 ^ ?k \<le> unat row")
    case True
    have "unat row XOR 2 ^ (15 - i) * 0x131 < 2 ^ ?k"
      by (rule xor_top_cancel [OF True bound]) (simp_all add: p)
    then show ?thesis
      using True test by (simp add: row'_def unsigned_xor_eq d)
  next
    case False
    then show ?thesis using test by (simp add: row'_def)
  qed
  show "\<exists>q. unat row' XOR unat row = clmul q 0x131"
  proof (cases "2 ^ ?k \<le> unat row")
    case True
    have "unat row' XOR unat row = 2 ^ (15 - i) * 0x131"
      using True test by (simp add: row'_def unsigned_xor_eq d ac_simps xor_cancel)
    then show ?thesis
      using clmul_pow2 [of "15 - i" "0x131"] by metis
  next
    case False
    then have "unat row' XOR unat row = clmul 0 0x131"
      using test by (simp add: row'_def)
    then show ?thesis ..
  qed
qed

lemma crc_loop_inv:
  assumes "i \<le> 16" "unat row < 2 ^ (24 - i)"
  shows "unat (crc_loop i row (drop_bit i 0x988000)) < 256 \<and>
         (\<exists>q. unat (crc_loop i row (drop_bit i 0x988000)) XOR unat row = clmul q 0x131)"
  using assms
proof (induction "16 - i" arbitrary: i row)
  case 0
  then have i: "i = 16" by simp
  have "unat row XOR unat row = clmul 0 0x131" by simp
  then have "\<exists>q. unat row XOR unat row = clmul q 0x131" ..
  then show ?case
    using "0.prems"(2) by (simp add: i crc_loop.simps [of 16])
next
  case (Suc n)
  then have i: "i < 16" by simp
  define row' where "row' = (if row AND push_bit (23 - i) 1 \<noteq> 0
                     then row XOR drop_bit i 0x988000 else row)"
  have unfold: "crc_loop i row (drop_bit i 0x988000) = crc_loop (i + 1) row' (drop_bit (i + 1) 0x988000)"
    using i by (subst crc_loop.simps) (simp add: row'_def drop_bit_drop_bit)
  have b': "unat row' < 2 ^ (24 - (i + 1))"
    using crc_step(1) [OF i Suc.prems(2)] by (simp add: row'_def)
  obtain q1 where q1: "unat row' XOR unat row = clmul q1 0x131"
    using crc_step(2) [OF i Suc.prems(2)] by (auto simp: row'_def)
  have n: "n = 16 - (i + 1)" using Suc.hyps(2) by simp
  have i': "i + 1 \<le> 16" using i by simp
  from Suc.hyps(1) [OF n i' b']
  obtain q2 where r: "unat (crc_loop (i + 1) row' (drop_bit (i + 1) 0x988000)) < 256"
    and q2: "unat (crc_loop (i + 1) row' (drop_bit (i + 1) 0x988000)) XOR unat row' = clmul q2 0x131"
    by auto
  let ?r = "unat (crc_loop (i + 1) row' (drop_bit (i + 1) 0x988000))"
  have "?r XOR unat row = (?r XOR unat row') XOR (unat row' XOR unat row)"
    by (simp add: ac_simps xor_cancel)
  also have "\<dots> = clmul (q2 XOR q1) 0x131"
    by (simp only: q1 q2 clmul_xor)
  finally have "\<exists>q. ?r XOR unat row = clmul q 0x131" ..
  then show ?case
    using r by (simp only: unfold)
qed


subsection \<open>The message and its validity\<close>

lemma unat_row0:
  fixes v :: u16 and c :: u8
  shows "unat (push_bit 8 (ucast v :: u32) OR ucast c) = push_bit 8 (unat v) XOR unat c"
  by (rule bit_eqI) (auto simp: bit_simps dest: bit_imp_le_length)

lemma msg_eq:
  fixes v :: u16 and c :: u8
  shows "push_bit 8 (unat v) XOR unat c = unat v * 256 + unat c"
proof -
  have "push_bit 8 (unat v) AND unat c = 0"
    by (rule bit_eqI) (auto simp: bit_simps dest: bit_imp_le_length)
  from disjunctive_add_eq_xor [OF this] show ?thesis
    by (simp add: push_bit_eq_mult)
qed

lemma crc_valid_iff:
  "is_crc_valid v c \<longleftrightarrow> (\<exists>q. clmul q 0x131 = push_bit 8 (unat v) XOR unat c)"
proof -
  let ?row = "push_bit 8 (ucast v :: u32) OR ucast c"
  let ?m = "push_bit 8 (unat v) XOR unat c"
  let ?r = "crc_loop 0 ?row 0x988000"
  have m: "unat ?row = ?m" by (rule unat_row0)
  have "?m = unat v * 256 + unat c" by (rule msg_eq)
  moreover have "unat v < 2 ^ 16" using unsigned_less [of v] by simp
  moreover have "unat c < 2 ^ 8" using unsigned_less [of c] by simp
  ultimately have "unat ?row < 2 ^ (24 - 0)" by (simp add: m)
  from crc_loop_inv [OF _ this]
  obtain q where r: "unat ?r < 256" and q: "unat ?r XOR ?m = clmul q 0x131"
    by (auto simp: m)
  have valid: "is_crc_valid v c \<longleftrightarrow> unat ?r = 0"
    by (simp add: is_crc_valid_def Let_def unat_eq_0)
  show ?thesis
  proof
    assume "is_crc_valid v c"
    with valid q have "clmul q 0x131 = ?m" by simp
    then show "\<exists>q. clmul q 0x131 = ?m" ..
  next
    assume "\<exists>q. clmul q 0x131 = ?m"
    then obtain q' where q': "clmul q' 0x131 = ?m" ..
    have "unat ?r = (unat ?r XOR ?m) XOR ?m"
      by (simp add: ac_simps xor_cancel)
    also have "\<dots> = clmul q 0x131 XOR clmul q' 0x131"
      by (simp only: q q')
    also have "\<dots> = clmul (q XOR q') 0x131"
      by (simp only: clmul_xor)
    finally have eq: "unat ?r = clmul (q XOR q') 0x131" .
    have "q XOR q' = 0"
    proof (rule ccontr)
      assume "q XOR q' \<noteq> 0"
      then have "2 ^ 8 \<le> clmul (q XOR q') 0x131"
        by (intro clmul_ge) simp_all
      with r eq show False by simp
    qed
    with eq valid show "is_crc_valid v c" by simp
  qed
qed

lemma crc_low_byte:
  "unat (crc_loop 0 (push_bit 8 (ucast (v :: u16) :: u32) OR ucast (c :: u8)) 0x988000) < 256"
proof -
  let ?row = "push_bit 8 (ucast v :: u32) OR ucast c"
  have "unat v < 2 ^ 16" using unsigned_less [of v] by simp
  moreover have "unat c < 2 ^ 8" using unsigned_less [of c] by simp
  ultimately have "unat ?row < 2 ^ (24 - 0)" by (simp add: unat_row0 msg_eq)
  from crc_loop_inv [OF _ this] show ?thesis by simp
qed

subsection \<open>Existence of a checksum, and single-bit flips\<close>

lemma crc_exists: "\<exists>c. is_crc_valid v c"
proof -
  let ?row = "push_bit 8 (ucast v :: u32) OR ucast (0 :: u8)"
  let ?r = "crc_loop 0 ?row 0x988000"
  have "unat ?row = push_bit 8 (unat v) XOR unat (0 :: u8)"
    by (rule unat_row0)
  then have row: "unat ?row = push_bit 8 (unat v)"
    by simp
  have "unat ?r < 256"
    by (rule crc_low_byte)
  then have c: "unat (ucast ?r :: u8) = unat ?r"
    by (simp add: unsigned_ucast_eq take_bit_nat_eq_self)
  have "unat v < 2 ^ 16" using unsigned_less [of v] by simp
  then have "push_bit 8 (unat v) < (2::nat) ^ (24 - 0)"
    by (simp add: push_bit_eq_mult)
  then have "unat ?row < 2 ^ (24 - 0)"
    by (simp only: row)
  from crc_loop_inv [OF _ this]
  obtain q where q: "unat ?r XOR unat ?row = clmul q 0x131"
    by auto
  then have "clmul q 0x131 = unat ?r XOR push_bit 8 (unat v)"
    by (simp only: row)
  also have "\<dots> = push_bit 8 (unat v) XOR unat (ucast ?r :: u8)"
    by (simp only: c xor.commute)
  finally have "is_crc_valid v (ucast ?r)"
    unfolding crc_valid_iff ..
  then show ?thesis ..
qed

lemma flip_not_valid:
  assumes "is_crc_valid v c" "push_bit 8 (unat v') XOR unat c' = (push_bit 8 (unat v) XOR unat c) XOR 2 ^ k"
  shows "\<not> is_crc_valid v' c'"
proof
  assume "is_crc_valid v' c'"
  then obtain q' where q': "clmul q' 0x131 = push_bit 8 (unat v') XOR unat c'"
    unfolding crc_valid_iff ..
  from assms(1) obtain q where q: "clmul q 0x131 = push_bit 8 (unat v) XOR unat c"
    unfolding crc_valid_iff ..
  have "clmul (q XOR q') 0x131 = clmul q 0x131 XOR clmul q' 0x131"
    by (rule clmul_xor)
  also have "\<dots> = 2 ^ k"
    by (simp only: q q' assms(2) xor_cancel)
  finally show False
    using clmul_not_pow2 [of 8 "0x131" "q XOR q'" k] by simp
qed

lemma flip_word_bit:
  fixes v :: u16
  assumes "k < 16"
  shows "push_bit 8 (unat (v XOR push_bit k 1)) XOR unat (c :: u8) = (push_bit 8 (unat v) XOR unat c) XOR 2 ^ (k + 8)"
proof -
  have "unat (push_bit k 1 :: u16) = take_bit LENGTH(16) (push_bit k (unat (1 :: u16)))"
    by (rule unsigned_push_bit_eq)
  also have "\<dots> = 2 ^ k"
    using assms by (simp add: take_bit_nat_eq_self)
  finally have "unat (push_bit k 1 :: u16) = 2 ^ k" .
  then have "unat (v XOR push_bit k 1) = unat v XOR 2 ^ k"
    by (simp only: unsigned_xor_eq)
  moreover have "push_bit 8 (unat v XOR 2 ^ k) = push_bit 8 (unat v) XOR push_bit 8 (2 ^ k)"
    by (rule push_bit_xor)
  moreover have "push_bit 8 ((2::nat) ^ k) = 2 ^ (k + 8)"
    by (simp add: push_bit_eq_mult power_add)
  ultimately have "push_bit 8 (unat (v XOR push_bit k 1)) = push_bit 8 (unat v) XOR 2 ^ (k + 8)"
    by (simp only:)
  then show ?thesis
    by (simp only: ac_simps)
qed

lemma flip_crc_bit:
  fixes c :: u8
  assumes "k < 8"
  shows "push_bit 8 (unat (v :: u16)) XOR unat (c XOR push_bit k 1) = (push_bit 8 (unat v) XOR unat c) XOR 2 ^ k"
proof -
  have "unat (push_bit k 1 :: u8) = take_bit LENGTH(8) (push_bit k (unat (1 :: u8)))"
    by (rule unsigned_push_bit_eq)
  also have "\<dots> = 2 ^ k"
    using assms by (simp add: take_bit_nat_eq_self)
  finally have "unat (push_bit k 1 :: u8) = 2 ^ k" .
  then have "unat (c XOR push_bit k 1) = unat c XOR 2 ^ k"
    by (simp only: unsigned_xor_eq)
  then show ?thesis
    by (simp add: ac_simps)
qed

lemma low_byte_mask:
  fixes r :: u32
  assumes "unat r < 256"
  shows "r AND 0xFF = r"
proof -
  have "r < 2 ^ 8"
    using assms by (simp add: word_less_nat_alt)
  then have "r AND mask 8 = r"
    by (rule less_mask_eq)
  moreover have "(mask 8 :: u32) = 0xFF"
    by (simp add: mask_eq_exp_minus_1)
  ultimately show ?thesis
    by (simp only:)
qed
subsection \<open>The two claims about the verifier\<close>

text \<open>
  C1: \<^verbatim>\<open>is_crc_valid(value, crc)\<close> returns true if and only if the 24-bit message
  \<open>value * 256 + crc\<close> has remainder zero under GF(2) polynomial division by the generator
  \<open>x\<^sup>8 + x\<^sup>5 + x\<^sup>4 + 1\<close>, that is, the message is a multiple of \<open>0x131\<close> in GF(2)[x]; and after
  the 16 iterations the row is zero exactly when its lower 8 bits are zero, for every
  16-bit value and every 8-bit crc.
\<close>

theorem is_crc_valid_gf2_division:
  "(is_crc_valid v c \<longleftrightarrow> (\<exists>q. clmul q 0x131 = unat v * 256 + unat c)) \<and>
   (is_crc_valid v c \<longleftrightarrow>
      crc_loop 0 (push_bit 8 (ucast v) OR ucast c) 0x988000 AND 0xFF = 0)"
proof
  show "is_crc_valid v c \<longleftrightarrow> (\<exists>q. clmul q 0x131 = unat v * 256 + unat c)"
    by (simp only: crc_valid_iff msg_eq)
next
  let ?r = "crc_loop 0 (push_bit 8 (ucast v :: u32) OR ucast c) 0x988000"
  have "?r AND 0xFF = ?r"
    by (rule low_byte_mask [OF crc_low_byte])
  then show "is_crc_valid v c \<longleftrightarrow> ?r AND 0xFF = 0"
    by (simp only: is_crc_valid_def Let_def)
qed

text \<open>
  The second example of the data sheet, humidity reading \<^verbatim>\<open>0x4E85\<close> with checksum \<^verbatim>\<open>0x6B\<close>:
  the message \<^verbatim>\<open>0x4E856B\<close> is the generator times \<^verbatim>\<open>0x42BB\<close>.
\<close>

theorem is_crc_valid_gf2_division_witness:
  "is_crc_valid 0x4E85 0x6B"
proof -
  have "clmul 0x42BB 0x131 = unat (0x4E85 :: u16) * 256 + unat (0x6B :: u8)"
    by (simp add: clmul.simps)
  then have "\<exists>q. clmul q 0x131 = unat (0x4E85 :: u16) * 256 + unat (0x6B :: u8)" ..
  with is_crc_valid_gf2_division [of "0x4E85" "0x6B"] show ?thesis
    by (simp only:)
qed

text \<open>
  C2: for every 16-bit word there is an 8-bit checksum that \<^verbatim>\<open>is_crc_valid\<close> accepts, and
  for any accepted pair, flipping any single one of the 24 bits (a bit of the word or a
  bit of the checksum) makes \<^verbatim>\<open>is_crc_valid\<close> reject.
\<close>

theorem crc_single_bit_detection:
  "(\<exists>c. is_crc_valid v c) \<and>
   (\<forall>c. is_crc_valid v c \<longrightarrow>
      (\<forall>k<16. \<not> is_crc_valid (v XOR push_bit k 1) c) \<and>
      (\<forall>k<8. \<not> is_crc_valid v (c XOR push_bit k 1)))"
proof (intro conjI allI impI)
  show "\<exists>c. is_crc_valid v c" by (rule crc_exists)
next
  fix c k
  assume "is_crc_valid v c" and "k < (16::nat)"
  then show "\<not> is_crc_valid (v XOR push_bit k 1) c"
    by (intro flip_not_valid [OF _ flip_word_bit])
next
  fix c k
  assume "is_crc_valid v c" and "k < (8::nat)"
  then show "\<not> is_crc_valid v (c XOR push_bit k 1)"
    by (intro flip_not_valid [OF _ flip_crc_bit])
qed

text \<open>
  The first example of the data sheet, temperature reading \<^verbatim>\<open>0x683A\<close> with checksum
  \<^verbatim>\<open>0x7C\<close>: the pair is accepted, and it is rejected once bit 3 of the word or bit 0 of the
  checksum is flipped.
\<close>

theorem crc_single_bit_detection_witness:
  "is_crc_valid 0x683A 0x7C \<and>
   \<not> is_crc_valid (0x683A XOR push_bit 3 1) 0x7C \<and>
   \<not> is_crc_valid 0x683A (0x7C XOR push_bit 0 1)"
proof -
  have "clmul 0x623C 0x131 = push_bit 8 (unat (0x683A :: u16)) XOR unat (0x7C :: u8)"
    by (simp add: clmul.simps)
  then have v: "is_crc_valid 0x683A 0x7C"
    unfolding crc_valid_iff ..
  have k3: "(3::nat) < 16" and k0: "(0::nat) < 8"
    by simp_all
  from crc_single_bit_detection [of "0x683A"] v k3 k0 show ?thesis
    by blast
qed

section \<open>The bus protocol: results, errors and traces\<close>

subsection \<open>Steps of the bus model\<close>

lemmas err_defs = ESP_OK_def ESP_FAIL_def ESP_ERR_NO_MEM_def ESP_ERR_INVALID_ARG_def
  ESP_ERR_INVALID_STATE_def ESP_ERR_TIMEOUT_def
  HTU21D_ERR_OK_def HTU21D_ERR_CONFIG_def HTU21D_ERR_INSTALL_def HTU21D_ERR_NOTFOUND_def
  HTU21D_ERR_INVALID_ARG_def HTU21D_ERR_FAIL_def HTU21D_ERR_INVALID_STATE_def
  HTU21D_ERR_TIMEOUT_def

lemmas link_defs = i2c_master_start_def i2c_master_write_byte_def i2c_master_read_byte_def
  i2c_master_stop_def

lemmas addr_defs = HTU21D_ADDR_def I2C_MASTER_WRITE_def I2C_MASTER_READ_def

lemma sensor_write_cmd:
  "c \<noteq> WRITE_USER_REG \<Longrightarrow>
   sensor [I2c_start, I2c_write 0x80 True, I2c_write c True, I2c_stop] w = ([], w\<lparr>pending := c\<rparr>)"
  by (simp add: sensor_def addr_defs)

lemma sensor_write_reg_cmd:
  "sensor [I2c_start, I2c_write 0x80 True, I2c_write WRITE_USER_REG True, I2c_write v True, I2c_stop] w
     = ([], w\<lparr>pending := WRITE_USER_REG, user_reg := v\<rparr>)"
  by (simp add: sensor_def addr_defs)

lemma sensor_write_reg_nodata:
  "sensor [I2c_start, I2c_write 0x80 True, I2c_write WRITE_USER_REG True, I2c_stop] w
     = ([], w\<lparr>pending := WRITE_USER_REG\<rparr>)"
  by (simp add: sensor_def addr_defs)

lemma sensor_trigger: "sensor (trigger_cmd c) w = ([], w\<lparr>pending := c\<rparr>)"
  by (cases "c = WRITE_USER_REG")
     (simp_all add: trigger_cmd_def sensor_write_cmd sensor_write_reg_nodata)

lemma sensor_fetch: "sensor fetch_cmd w = (sensor_reply w 3, w)"
  by (simp add: sensor_def fetch_cmd_def addr_defs numeral_3_eq_3)

lemma sensor_read1:
  "sensor [I2c_start, I2c_write 0x81 True, I2c_read 0x01, I2c_stop] w = (sensor_reply w 1, w)"
  by (simp add: sensor_def addr_defs)

lemma sensor_probe: "sensor probe_cmd w = ([], w)"
  by (simp add: sensor_def probe_cmd_def addr_defs)


lemma sensor_trigger_list:
  "sensor [I2c_start, I2c_write 0x80 True, I2c_write c True, I2c_stop] w = ([], w\<lparr>pending := c\<rparr>)"
  using sensor_trigger [of c w] by (simp add: trigger_cmd_def)

lemma sensor_fetch_list:
  "sensor [I2c_start, I2c_write 0x81 True, I2c_read 0x00, I2c_read 0x00, I2c_read 0x01, I2c_stop] w
     = (sensor_reply w 3, w)"
  using sensor_fetch [of w] by (simp add: fetch_cmd_def)

lemma sensor_probe_list:
  "sensor [I2c_start, I2c_write 0x80 True, I2c_stop] w = ([], w)"
  using sensor_probe [of w] by (simp add: probe_cmd_def)

lemmas io_defs = i2c_cmd_link_create_def i2c_master_cmd_begin_def link_defs emit_def
  vTaskDelay_ms_def ESP_LOGE_def i2c_param_config_def i2c_driver_install_def addr_defs

lemmas sensor_simps = sensor_trigger_list sensor_fetch_list sensor_probe_list sensor_read1
  sensor_write_reg_cmd

lemma sensor_reply_frame:
  "sensor_reply (w\<lparr>links := a\<rparr>) n = sensor_reply w n"
  "sensor_reply (w\<lparr>xfers := b\<rparr>) n = sensor_reply w n"
  "sensor_reply (w\<lparr>trace := t\<rparr>) n = sensor_reply w n"
  "sensor_reply (w\<lparr>port := p\<rparr>) n = sensor_reply w n"
  by (simp_all add: sensor_reply_def)

subsection \<open>Measurement trigger and read\<close>

lemma read_value_fail:
  assumes "\<not> read_ok w"
  shows "fst (read_value command w) = 0"
  using assms
  by (auto simp: read_ok_def read_value_def io_defs Let_def sensor_simps
      split: prod.splits if_splits)

lemma read_value_ok:
  assumes "read_ok w"
  shows "read_value command w =
     (let rx = sensor_reply (w\<lparr>pending := command\<rparr>) 3;
          raw = push_bit 8 (ucast (rx_byte rx 0) :: u16) OR ucast (rx_byte rx 1);
          w' = w\<lparr>links := links w + 2, xfers := xfers w + 2, pending := command,
                 trace := trace w @ [Transfer (port w) (trigger_cmd command) 1000, Delay_ms 50,
                                     Transfer (port w) fetch_cmd 1000]\<rparr>
      in (raw AND 0xFFFC,
          if is_crc_valid raw (rx_byte rx 2) then w' else ESP_LOGE ''CRC is invalid.'' w'))"
  using assms
  by (simp add: read_ok_def read_value_def io_defs Let_def sensor_simps
      trigger_cmd_def fetch_cmd_def sensor_reply_frame)


lemma sensor_reply_msb_lsb:
  assumes "pending w' = pending w" "user_reg w' = user_reg w"
    and "sample w' = (\<lambda>k. case sample w k of (m, l, x) \<Rightarrow> (m, l, c'))"
  shows "rx_byte (sensor_reply w' 3) 0 = rx_byte (sensor_reply w 3) 0"
    and "rx_byte (sensor_reply w' 3) 1 = rx_byte (sensor_reply w 3) 1"
  using assms
  by (simp_all add: sensor_reply_def rx_byte_def numeral_3_eq_3 split: prod.splits)

lemma low_bits_clear: "((x :: u16) AND 0xFFFC) AND 3 = 0"
proof -
  have "(0xFFFC :: u16) AND 3 = 0" by simp
  then have "x AND ((0xFFFC :: u16) AND 3) = 0" by (simp only: and_zero_eq)
  then show ?thesis by (simp only: and.assoc)
qed

text \<open>
  C5: when both transactions of \<^verbatim>\<open>read_value\<close> succeed, the result is the 16-bit word
  assembled big-endian from the first two bytes read (the first byte is the high byte),
  ANDed with \<^verbatim>\<open>0xFFFC\<close>, so its two low bits are zero; a failed CRC check only adds a log
  line to the trace, and the result is the same whatever checksum byte the sensor sends.
\<close>

theorem read_value_masked_word:
  assumes "read_ok w"
  shows "(let rx = sensor_reply (w\<lparr>pending := command\<rparr>) 3;
              raw = push_bit 8 (ucast (rx_byte rx 0) :: u16) OR ucast (rx_byte rx 1)
          in fst (read_value command w) = raw AND 0xFFFC \<and>
             fst (read_value command w) AND 3 = 0 \<and>
             trace (snd (read_value command w)) =
               trace w @ [Transfer (port w) (trigger_cmd command) 1000, Delay_ms 50,
                          Transfer (port w) fetch_cmd 1000]
                       @ (if is_crc_valid raw (rx_byte rx 2) then []
                          else [Log_error ''CRC is invalid.''])) \<and>
         fst (read_value command
                (w\<lparr>sample := (\<lambda>k. case sample w k of (m, l, x) \<Rightarrow> (m, l, crc'))\<rparr>))
           = fst (read_value command w)"
proof -
  let ?w' = "w\<lparr>sample := (\<lambda>k. case sample w k of (m, l, x) \<Rightarrow> (m, l, crc'))\<rparr>"
  let ?rx = "sensor_reply (w\<lparr>pending := command\<rparr>) 3"
  let ?rx' = "sensor_reply (?w'\<lparr>pending := command\<rparr>) 3"
  let ?raw = "push_bit 8 (ucast (rx_byte ?rx 0) :: u16) OR ucast (rx_byte ?rx 1)"
  have ok': "read_ok ?w'"
    using assms by (simp add: read_ok_def)
  have val: "fst (read_value command w) = ?raw AND 0xFFFC"
    by (simp add: read_value_ok [OF assms] Let_def)
  have low: "fst (read_value command w) AND 3 = 0"
    unfolding val by (rule low_bits_clear)
  have tr: "trace (snd (read_value command w)) =
      trace w @ [Transfer (port w) (trigger_cmd command) 1000, Delay_ms 50,
                 Transfer (port w) fetch_cmd 1000]
              @ (if is_crc_valid ?raw (rx_byte ?rx 2) then [] else [Log_error ''CRC is invalid.''])"
    by (simp add: read_value_ok [OF assms] Let_def ESP_LOGE_def emit_def)
  have b0: "rx_byte ?rx' 0 = rx_byte ?rx 0" and b1: "rx_byte ?rx' 1 = rx_byte ?rx 1"
    by (rule sensor_reply_msb_lsb; simp)+
  have "fst (read_value command ?w') =
      (push_bit 8 (ucast (rx_byte ?rx' 0) :: u16) OR ucast (rx_byte ?rx' 1)) AND 0xFFFC"
    by (simp add: read_value_ok [OF ok'] Let_def)
  then have same: "fst (read_value command ?w') = fst (read_value command w)"
    by (simp only: b0 b1 val)
  from val low tr same show ?thesis
    by (simp only: Let_def)
qed


subsection \<open>Queueing calls that fail\<close>

lemma sensor_frame:
  "link_ok (snd (sensor cmd w)) = link_ok w"
  "links (snd (sensor cmd w)) = links w"
  "xfer_ret (snd (sensor cmd w)) = xfer_ret w"
  "xfers (snd (sensor cmd w)) = xfers w"
  by (simp_all add: sensor_def split: list.splits)

lemma cmd_beginD:
  assumes "i2c_master_cmd_begin p cmd t w = (ret, rx, w')"
  shows "ret = xfer_ret w (xfers w) \<and> link_ok w' = link_ok w \<and> links w' = links w \<and>
         xfer_ret w' = xfer_ret w \<and> xfers w' = xfers w + 1"
proof -
  have "ret = fst (i2c_master_cmd_begin p cmd t w)"
    and "w' = snd (snd (i2c_master_cmd_begin p cmd t w))"
    by (simp_all add: assms)
  then show ?thesis
    by (simp add: i2c_master_cmd_begin_def emit_def Let_def sensor_frame split: prod.splits)
qed

lemma read_value_queued_fail:
  assumes "\<not> read_ok w"
  shows "fst (read_value_queued q locals command w) = 0"
  using assms
  by (auto simp: read_ok_def read_value_queued_def i2c_cmd_link_create_def Let_def
      vTaskDelay_ms_def emit_def
      split: prod.splits if_splits dest!: cmd_beginD)

lemma rx_byte_drop: "rx_byte (drop k rx) i = rx_byte rx (k + i)"
  by (auto simp: rx_byte_def)

lemma read_value_queued_all_ok:
  assumes "\<And>k. k < 10 \<Longrightarrow> q k = ESP_OK"
  shows "read_value_queued q locals command w = read_value command w"
  by (simp add: read_value_queued_def read_value_def queue_op_def stored_def assms link_defs
      Let_def rx_byte_drop numeral_2_eq_2 split: prod.splits option.splits)

text \<open>
  C6, as the code has it: \<^verbatim>\<open>read_value(command)\<close> returns the sentinel 0 whenever a command
  link cannot be allocated or \<^verbatim>\<open>i2c_master_cmd_begin\<close> reports a non-success status, on the
  command-write transaction or on the three-byte read transaction, for every command code
  and whatever the queueing calls return. A queueing call that fails is not such a case:
  its result is only logged.
\<close>

theorem read_value_sentinel_on_failure:
  assumes "\<not> link_ok w (links w) \<or> xfer_ret w (xfers w) \<noteq> ESP_OK \<or>
           \<not> link_ok w (links w + 1) \<or> xfer_ret w (xfers w + 1) \<noteq> ESP_OK"
  shows "fst (read_value command w) = 0 \<and>
         fst (read_value_queued q locals command w) = 0"
proof -
  from assms have "\<not> read_ok w"
    by (auto simp: read_ok_def)
  then show ?thesis
    by (simp add: read_value_fail read_value_queued_fail)
qed

text \<open>
  C6 as stated fails when the set-up of a transaction fails in a queueing call: with
  \<^verbatim>\<open>i2c_master_stop\<close> of the command transaction returning \<^verbatim>\<open>ESP_ERR_NO_MEM\<close> and both
  transactions reported \<^verbatim>\<open>ESP_OK\<close>, \<^verbatim>\<open>read_value\<close> returns the reading \<^verbatim>\<open>0x6838\<close>, not 0.
\<close>

theorem queueing_failure_not_sentinel:
  "stop_fails 3 \<noteq> ESP_OK \<and>
   read_ok nominal \<and>
   fst (read_value_queued stop_fails (0, 0, 0) TRIGGER_TEMP_MEASURE_NOHOLD nominal) = 0x6838 \<and>
   fst (read_value_queued stop_fails (0, 0, 0) TRIGGER_TEMP_MEASURE_NOHOLD nominal) \<noteq> 0"
proof -
  have "fst (read_value_queued stop_fails (0, 0, 0) TRIGGER_TEMP_MEASURE_NOHOLD nominal) = 0x6838"
    by (simp add: read_value_queued_def queue_op_def stored_def stop_fails_def io_defs err_defs
        sensor_def sensor_reply_def nominal_def rx_byte_def Let_def
        TRIGGER_TEMP_MEASURE_NOHOLD_def READ_USER_REG_def WRITE_USER_REG_def numeral_3_eq_3)
  then show ?thesis
    by (simp add: stop_fails_def err_defs read_ok_def nominal_def)
qed

subsection \<open>Status codes of the register write and of the soft reset\<close>

lemma write_user_register_ret:
  assumes "link_ok w (links w)"
  shows "fst (htu21d_write_user_register v w) =
     (let ret = xfer_ret w (xfers w)
      in if ret = ESP_ERR_INVALID_ARG then HTU21D_ERR_INVALID_ARG
         else if ret = ESP_FAIL then HTU21D_ERR_FAIL
         else if ret = ESP_ERR_INVALID_STATE then HTU21D_ERR_INVALID_STATE
         else if ret = ESP_ERR_TIMEOUT then HTU21D_ERR_TIMEOUT
         else HTU21D_ERR_OK)"
  using assms
  by (simp add: htu21d_write_user_register_def io_defs Let_def split: prod.splits)

lemma soft_reset_ret:
  assumes "link_ok w (links w)"
  shows "fst (htu21d_soft_reset w) =
     (let ret = xfer_ret w (xfers w)
      in if ret = ESP_ERR_INVALID_ARG then HTU21D_ERR_INVALID_ARG
         else if ret = ESP_FAIL then HTU21D_ERR_FAIL
         else if ret = ESP_ERR_INVALID_STATE then HTU21D_ERR_INVALID_STATE
         else if ret = ESP_ERR_TIMEOUT then HTU21D_ERR_TIMEOUT
         else HTU21D_ERR_OK)"
  using assms
  by (simp add: htu21d_soft_reset_def io_defs Let_def split: prod.splits)

lemma soft_reset_trace:
  assumes "link_ok w (links w)"
  shows "trace (snd (htu21d_soft_reset w)) =
     trace w @ Transfer (port w) reset_cmd 1000 #
       (if xfer_ret w (xfers w) \<in> {ESP_ERR_INVALID_ARG, ESP_FAIL, ESP_ERR_INVALID_STATE, ESP_ERR_TIMEOUT}
        then [] else [Delay_ms 15])"
  using assms
  by (simp add: htu21d_soft_reset_def io_defs Let_def reset_cmd_def HTU21_RESET_TIME_def
      err_defs sensor_def SOFT_RESET_def WRITE_USER_REG_def split: prod.splits)

text \<open>
  C7: \<^verbatim>\<open>htu21d_write_user_register\<close> maps each of the four transport-failure categories
  (invalid argument, generic failure, invalid state, time-out) to the corresponding
  status code, the codes are distinct, and \<^verbatim>\<open>htu21d_soft_reset\<close> maps the same categories to
  the same codes.
\<close>

theorem transport_errors_map_to_status:
  assumes "link_ok w (links w)"
  shows "(xfer_ret w (xfers w) = ESP_ERR_INVALID_ARG \<longrightarrow>
            fst (htu21d_write_user_register v w) = HTU21D_ERR_INVALID_ARG \<and>
            fst (htu21d_soft_reset w) = HTU21D_ERR_INVALID_ARG) \<and>
         (xfer_ret w (xfers w) = ESP_FAIL \<longrightarrow>
            fst (htu21d_write_user_register v w) = HTU21D_ERR_FAIL \<and>
            fst (htu21d_soft_reset w) = HTU21D_ERR_FAIL) \<and>
         (xfer_ret w (xfers w) = ESP_ERR_INVALID_STATE \<longrightarrow>
            fst (htu21d_write_user_register v w) = HTU21D_ERR_INVALID_STATE \<and>
            fst (htu21d_soft_reset w) = HTU21D_ERR_INVALID_STATE) \<and>
         (xfer_ret w (xfers w) = ESP_ERR_TIMEOUT \<longrightarrow>
            fst (htu21d_write_user_register v w) = HTU21D_ERR_TIMEOUT \<and>
            fst (htu21d_soft_reset w) = HTU21D_ERR_TIMEOUT) \<and>
         distinct [HTU21D_ERR_OK, HTU21D_ERR_INVALID_ARG, HTU21D_ERR_FAIL,
                   HTU21D_ERR_INVALID_STATE, HTU21D_ERR_TIMEOUT]"
  by (simp add: write_user_register_ret [OF assms] soft_reset_ret [OF assms] Let_def err_defs)

text \<open>
  C10: for a transport result that is neither success nor one of the four enumerated
  categories, \<^verbatim>\<open>htu21d_write_user_register\<close> and \<^verbatim>\<open>htu21d_soft_reset\<close> return
  \<^verbatim>\<open>HTU21D_ERR_OK\<close>, and \<^verbatim>\<open>htu21d_soft_reset\<close> performs its 15 ms delay after the failed
  transaction: the \<^verbatim>\<open>switch\<close> statements have no \<^verbatim>\<open>default\<close> branch.
\<close>

theorem unlisted_transport_error_reported_ok:
  assumes "link_ok w (links w)"
    and "xfer_ret w (xfers w) \<noteq> ESP_OK"
    and "xfer_ret w (xfers w) \<notin> {ESP_ERR_INVALID_ARG, ESP_FAIL, ESP_ERR_INVALID_STATE, ESP_ERR_TIMEOUT}"
  shows "fst (htu21d_write_user_register v w) = HTU21D_ERR_OK \<and>
         fst (htu21d_soft_reset w) = HTU21D_ERR_OK \<and>
         trace (snd (htu21d_soft_reset w)) =
           trace w @ [Transfer (port w) reset_cmd 1000, Delay_ms 15]"
  using assms(2,3)
  by (simp add: write_user_register_ret [OF assms(1)] soft_reset_ret [OF assms(1)]
      soft_reset_trace [OF assms(1)] Let_def)


subsection \<open>Concrete runs\<close>

text \<open>The data sheet's example reading passes the CRC check; with bit 0 of the checksum
  flipped it fails.\<close>

lemma datasheet_crc: "is_crc_valid 0x683A 0x7C"
proof -
  have "clmul 0x623C 0x131 = push_bit 8 (unat (0x683A :: u16)) XOR unat (0x7C :: u8)"
    by (simp add: clmul.simps)
  then show ?thesis
    unfolding crc_valid_iff ..
qed

lemma datasheet_crc_flipped: "\<not> is_crc_valid 0x683A 0x7D"
proof -
  have "\<not> is_crc_valid 0x683A (0x7C XOR push_bit 0 1)"
    by (rule flip_not_valid [OF datasheet_crc flip_crc_bit]) simp
  then show ?thesis by simp
qed

text \<open>
  In the nominal world the temperature command yields \<^verbatim>\<open>0x683A AND 0xFFFC = 0x6838\<close> and no
  log line; with the checksum byte \<^verbatim>\<open>0x7D\<close>, which fails the check, the result is the same.
\<close>

theorem read_value_masked_word_witness:
  "read_ok nominal \<and>
   fst (read_value 0xF3 nominal) = 0x6838 \<and>
   trace (snd (read_value 0xF3 nominal)) =
     [Transfer 0 (trigger_cmd 0xF3) 1000, Delay_ms 50, Transfer 0 fetch_cmd 1000] \<and>
   fst (read_value 0xF3 (nominal\<lparr>sample := (\<lambda>k. (0x68, 0x3A, 0x7D))\<rparr>)) = 0x6838"
proof -
  have ok: "read_ok nominal"
    by (simp add: read_ok_def nominal_def)
  have rx: "sensor_reply (nominal\<lparr>pending := 0xF3\<rparr>) 3 = [0x68, 0x3A, 0x7C]"
    by (simp add: sensor_reply_def nominal_def READ_USER_REG_def numeral_3_eq_3)
  have raw: "push_bit 8 (ucast (0x68 :: u8) :: u16) OR ucast (0x3A :: u8) = 0x683A"
    by simp
  have w': "nominal\<lparr>sample := (\<lambda>k. case sample nominal k of (m, l, x) \<Rightarrow> (m, l, 0x7D))\<rparr>
      = nominal\<lparr>sample := (\<lambda>k. (0x68, 0x3A, 0x7D))\<rparr>"
    by (simp add: nominal_def)
  have p: "port nominal = 0" "trace nominal = []"
    by (simp_all add: nominal_def)
  from read_value_masked_word [OF ok, of "0xF3" "0x7D"] show ?thesis
    unfolding rx w' Let_def
    by (simp add: rx_byte_def ok raw datasheet_crc p)
qed

text \<open>
  Failing runs: no memory for the first command link, a NACK on the command transaction,
  no memory for the second command link, a time-out on the read transaction, and a NACK
  on the command transaction after a queueing call has failed as well.
\<close>

theorem read_value_sentinel_on_failure_witness:
  "fst (read_value 0xF3 (nominal\<lparr>link_ok := (\<lambda>k. False)\<rparr>)) = 0 \<and>
   fst (read_value 0xF3 (nominal\<lparr>xfer_ret := (\<lambda>k. ESP_FAIL)\<rparr>)) = 0 \<and>
   fst (read_value 0xF5 (nominal\<lparr>link_ok := (\<lambda>k. k \<noteq> 1)\<rparr>)) = 0 \<and>
   fst (read_value 0xF5 (nominal\<lparr>xfer_ret := (\<lambda>k. if k = 1 then ESP_ERR_TIMEOUT else ESP_OK)\<rparr>)) = 0 \<and>
   fst (read_value_queued stop_fails (0, 0, 0) 0xF3 (nominal\<lparr>xfer_ret := (\<lambda>k. ESP_FAIL)\<rparr>)) = 0"
  using read_value_sentinel_on_failure [of "nominal\<lparr>link_ok := (\<lambda>k. False)\<rparr>" "0xF3"]
    read_value_sentinel_on_failure
      [of "nominal\<lparr>xfer_ret := (\<lambda>k. ESP_FAIL)\<rparr>" "0xF3" stop_fails "(0, 0, 0)"]
    read_value_sentinel_on_failure [of "nominal\<lparr>link_ok := (\<lambda>k. k \<noteq> 1)\<rparr>" "0xF5"]
    read_value_sentinel_on_failure
      [of "nominal\<lparr>xfer_ret := (\<lambda>k. if k = 1 then ESP_ERR_TIMEOUT else ESP_OK)\<rparr>" "0xF5"]
  by (simp add: nominal_def err_defs)

text \<open>One run for each of the four transport errors.\<close>

theorem transport_errors_map_to_status_witness:
  "fst (htu21d_write_user_register 0x81 (nominal\<lparr>xfer_ret := (\<lambda>k. ESP_ERR_INVALID_ARG)\<rparr>)) = 4 \<and>
   fst (htu21d_soft_reset (nominal\<lparr>xfer_ret := (\<lambda>k. ESP_ERR_INVALID_ARG)\<rparr>)) = 4 \<and>
   fst (htu21d_write_user_register 0x81 (nominal\<lparr>xfer_ret := (\<lambda>k. ESP_FAIL)\<rparr>)) = 5 \<and>
   fst (htu21d_soft_reset (nominal\<lparr>xfer_ret := (\<lambda>k. ESP_FAIL)\<rparr>)) = 5 \<and>
   fst (htu21d_write_user_register 0x81 (nominal\<lparr>xfer_ret := (\<lambda>k. ESP_ERR_INVALID_STATE)\<rparr>)) = 6 \<and>
   fst (htu21d_soft_reset (nominal\<lparr>xfer_ret := (\<lambda>k. ESP_ERR_INVALID_STATE)\<rparr>)) = 6 \<and>
   fst (htu21d_write_user_register 0x81 (nominal\<lparr>xfer_ret := (\<lambda>k. ESP_ERR_TIMEOUT)\<rparr>)) = 7 \<and>
   fst (htu21d_soft_reset (nominal\<lparr>xfer_ret := (\<lambda>k. ESP_ERR_TIMEOUT)\<rparr>)) = 7"
  using transport_errors_map_to_status [of "nominal\<lparr>xfer_ret := (\<lambda>k. ESP_ERR_INVALID_ARG)\<rparr>" "0x81"]
    transport_errors_map_to_status [of "nominal\<lparr>xfer_ret := (\<lambda>k. ESP_FAIL)\<rparr>" "0x81"]
    transport_errors_map_to_status [of "nominal\<lparr>xfer_ret := (\<lambda>k. ESP_ERR_INVALID_STATE)\<rparr>" "0x81"]
    transport_errors_map_to_status [of "nominal\<lparr>xfer_ret := (\<lambda>k. ESP_ERR_TIMEOUT)\<rparr>" "0x81"]
  by (simp add: nominal_def err_defs)

text \<open>A transaction that fails with \<^verbatim>\<open>ESP_ERR_NO_MEM\<close>, a code the \<^verbatim>\<open>switch\<close> does not list.\<close>

theorem unlisted_transport_error_reported_ok_witness:
  "ESP_ERR_NO_MEM \<noteq> ESP_OK \<and>
   fst (htu21d_write_user_register 0x81 (nominal\<lparr>xfer_ret := (\<lambda>k. ESP_ERR_NO_MEM)\<rparr>)) = HTU21D_ERR_OK \<and>
   fst (htu21d_soft_reset (nominal\<lparr>xfer_ret := (\<lambda>k. ESP_ERR_NO_MEM)\<rparr>)) = HTU21D_ERR_OK \<and>
   trace (snd (htu21d_soft_reset (nominal\<lparr>xfer_ret := (\<lambda>k. ESP_ERR_NO_MEM)\<rparr>))) =
     [Transfer 0 reset_cmd 1000, Delay_ms 15]"
  using unlisted_transport_error_reported_ok [of "nominal\<lparr>xfer_ret := (\<lambda>k. ESP_ERR_NO_MEM)\<rparr>" "0x81"]
  by (simp add: nominal_def err_defs)

subsection \<open>Initialisation\<close>

lemma init_cases:
  "htu21d_init p sda scl spu cpu w =
     (if config_ret w \<noteq> ESP_OK
      then (HTU21D_ERR_CONFIG, w\<lparr>port := p, trace := trace w @ [Param_config p sda scl spu cpu 100000]\<rparr>)
      else if install_ret w \<noteq> ESP_OK
      then (HTU21D_ERR_INSTALL,
            w\<lparr>port := p, trace := trace w @ [Param_config p sda scl spu cpu 100000, Driver_install p]\<rparr>)
      else if \<not> link_ok w (links w)
      then (HTU21D_ERR_FAIL,
            w\<lparr>port := p, links := links w + 1,
              trace := trace w @ [Param_config p sda scl spu cpu 100000, Driver_install p]\<rparr>)
      else if xfer_ret w (xfers w) \<noteq> ESP_OK
      then (HTU21D_ERR_NOTFOUND, probed p sda scl spu cpu w)
      else htu21d_soft_reset (probed p sda scl spu cpu w))"
  by (simp add: htu21d_init_def io_defs Let_def probed_def probe_cmd_def sensor_simps
      split: prod.splits)


text \<open>
  C8: in \<^verbatim>\<open>htu21d_init\<close>, if the presence probe reports non-success, the function returns
  the not-found error and the soft-reset command is never put on the bus; a soft-reset
  transaction appears in the trace only after the probe has succeeded, and then the result
  of \<^verbatim>\<open>htu21d_soft_reset\<close> is the result of the initialisation.
\<close>

theorem init_probe_gates_soft_reset:
  "(config_ret w = ESP_OK \<and> install_ret w = ESP_OK \<and> link_ok w (links w) \<and>
    xfer_ret w (xfers w) \<noteq> ESP_OK \<longrightarrow>
      htu21d_init p sda scl spu cpu w = (HTU21D_ERR_NOTFOUND, probed p sda scl spu cpu w) \<and>
      \<not> list_ex sends_reset
          (drop (length (trace w)) (trace (snd (htu21d_init p sda scl spu cpu w))))) \<and>
   (list_ex sends_reset
      (drop (length (trace w)) (trace (snd (htu21d_init p sda scl spu cpu w)))) \<longrightarrow>
      config_ret w = ESP_OK \<and> install_ret w = ESP_OK \<and> link_ok w (links w) \<and>
      xfer_ret w (xfers w) = ESP_OK) \<and>
   (config_ret w = ESP_OK \<and> install_ret w = ESP_OK \<and> link_ok w (links w) \<and>
    xfer_ret w (xfers w) = ESP_OK \<longrightarrow>
      htu21d_init p sda scl spu cpu w = htu21d_soft_reset (probed p sda scl spu cpu w))"
  by (simp add: init_cases probed_def probe_cmd_def SOFT_RESET_def)

text \<open>
  A bus on which every transaction is not acknowledged: the probe fails and the trace
  ends with it. On the nominal bus the initialisation is the soft reset that follows the
  probe.
\<close>

theorem init_probe_gates_soft_reset_witness:
  "htu21d_init 0 1 2 1 1 (nominal\<lparr>xfer_ret := (\<lambda>k. ESP_FAIL)\<rparr>) =
     (HTU21D_ERR_NOTFOUND, probed 0 1 2 1 1 (nominal\<lparr>xfer_ret := (\<lambda>k. ESP_FAIL)\<rparr>)) \<and>
   trace (snd (htu21d_init 0 1 2 1 1 (nominal\<lparr>xfer_ret := (\<lambda>k. ESP_FAIL)\<rparr>))) =
     [Param_config 0 1 2 1 1 100000, Driver_install 0, Transfer 0 probe_cmd 1000] \<and>
   htu21d_init 0 1 2 1 1 nominal = htu21d_soft_reset (probed 0 1 2 1 1 nominal)"
  using init_probe_gates_soft_reset [of "nominal\<lparr>xfer_ret := (\<lambda>k. ESP_FAIL)\<rparr>" 0 1 2 1 1]
    init_probe_gates_soft_reset [of nominal 0 1 2 1 1]
  by (simp add: nominal_def err_defs probed_def)

section \<open>Floating-point rounding\<close>

subsection \<open>Exponent, rounding error and exactly representable numbers\<close>

lemma expo_eq_iff:
  assumes "x \<noteq> 0"
  shows "expo x = e \<longleftrightarrow> 2 powi e \<le> \<bar>x\<bar> \<and> \<bar>x\<bar> < 2 powi (e + 1)"
proof -
  have "0 < \<bar>x\<bar>" using assms by simp
  then have "\<lfloor>log 2 \<bar>x\<bar>\<rfloor> = e \<longleftrightarrow>
      2 powr real_of_int e \<le> \<bar>x\<bar> \<and> \<bar>x\<bar> < 2 powr real_of_int (e + 1)"
    by (rule floor_log_eq_powr_iff) simp
  then show ?thesis
    by (simp only: expo_def powr_real_of_int' [of 2, simplified])
qed

lemma expo_less:
  assumes "x \<noteq> 0" "\<bar>x\<bar> < 2 powi k"
  shows "expo x < k"
proof (rule ccontr)
  assume "\<not> expo x < k"
  then have "(2::real) powi k \<le> 2 powi expo x"
    by (intro power_int_increasing) simp_all
  moreover have "2 powi expo x \<le> \<bar>x\<bar>"
    using expo_eq_iff [OF assms(1), of "expo x"] by simp
  ultimately show False using assms(2) by simp
qed

lemma round_half_even_error: "\<bar>of_int (round_half_even y) - y\<bar> \<le> 1 / 2"
proof -
  have "of_int \<lfloor>y\<rfloor> \<le> y" "y < of_int \<lfloor>y\<rfloor> + 1"
    by linarith+
  then show ?thesis
    by (auto simp: round_half_even_def Let_def)
qed

lemma round_half_even_int [simp]: "round_half_even (of_int n) = n"
  by (simp add: round_half_even_def)

lemma round_to_error:
  assumes "\<bar>x\<bar> < 2 powi k"
  shows "\<bar>round_to p x - x\<bar> \<le> 2 powi (k - int p - 1)"
proof (cases "x = 0")
  case True
  then show ?thesis by (simp add: round_to_def)
next
  case False
  define u :: real where "u = 2 powi (expo x - int p + 1)"
  have u: "0 < u" by (simp add: u_def)
  have r: "round_to p x = u * of_int (round_half_even (x / u))"
    using False by (simp add: round_to_def Let_def u_def)
  have "u * (of_int (round_half_even (x / u)) - x / u) = round_to p x - x"
    using u by (simp add: r right_diff_distrib)
  then have "round_to p x - x = u * (of_int (round_half_even (x / u)) - x / u)"
    by simp
  then have "\<bar>round_to p x - x\<bar> = u * \<bar>of_int (round_half_even (x / u)) - x / u\<bar>"
    using u by (simp add: abs_mult)
  also have "\<dots> \<le> u * (1 / 2)"
    using u round_half_even_error [of "x / u"] by (intro mult_left_mono) simp_all
  also have "\<dots> = 2 powi (expo x - int p)"
    by (simp add: u_def power_int_add)
  also have "\<dots> \<le> 2 powi (k - int p - 1)"
    using expo_less [OF False assms] by (intro power_int_increasing) simp_all
  finally show ?thesis .
qed

lemma round_to_exact:
  assumes "\<bar>m\<bar> < 2 ^ p"
  shows "round_to p (of_int m * 2 powi j) = of_int m * 2 powi j"
proof (cases "m = 0")
  case True
  then show ?thesis by (simp add: round_to_def)
next
  case False
  let ?x = "of_int m * (2::real) powi j"
  have x0: "?x \<noteq> 0" using False by simp
  have "real_of_int \<bar>m\<bar> < real_of_int (2 ^ p)"
    using assms by (simp only: of_int_less_iff)
  then have am: "real_of_int \<bar>m\<bar> < 2 ^ p"
    by simp
  have "\<bar>?x\<bar> = of_int \<bar>m\<bar> * 2 powi j"
    by (simp add: abs_mult)
  also have "\<dots> < 2 ^ p * 2 powi j"
    using am by (intro mult_strict_right_mono) simp_all
  also have "\<dots> = 2 powi (int p + j)"
    by (simp add: power_int_add)
  finally have "expo ?x < int p + j"
    by (rule expo_less [OF x0])
  define e where "e = expo ?x"
  have "0 \<le> j - (e - int p + 1)"
    using \<open>expo ?x < int p + j\<close> by (simp add: e_def)
  then obtain d :: nat where "j - (e - int p + 1) = int d"
    using zero_le_imp_eq_int by blast
  then have d: "j = (e - int p + 1) + int d"
    by simp
  define u :: real where "u = 2 powi (e - int p + 1)"
  have u: "u \<noteq> 0" by (simp add: u_def)
  have "(2::real) powi ((e - int p + 1) + int d) = 2 powi (e - int p + 1) * 2 powi int d"
    by (rule power_int_add) simp
  then have pj: "(2::real) powi j = u * 2 ^ d"
    by (simp only: d [symmetric] u_def power_int_of_nat)
  have "?x / u = of_int m * (u * 2 ^ d) / u"
    by (simp only: pj)
  also have "\<dots> = of_int (m * 2 ^ d)"
    using u by simp
  finally have "round_half_even (?x / u) = m * 2 ^ d"
    by (simp only: round_half_even_int)
  then have "round_to p ?x = u * of_int (m * 2 ^ d)"
    using x0 by (simp only: round_to_def Let_def u_def e_def if_False)
  also have "\<dots> = of_int m * (u * 2 ^ d)"
    by simp
  also have "\<dots> = ?x"
    by (simp only: pj)
  finally show ?thesis .
qed

lemma round_to_eval:
  assumes "x \<noteq> 0" "2 powi e \<le> \<bar>x\<bar>" "\<bar>x\<bar> < 2 powi (e + 1)"
    and "round_half_even (x / 2 powi (e - int p + 1)) = n"
  shows "round_to p x = 2 powi (e - int p + 1) * of_int n"
proof -
  have "expo x = e"
    using assms(2,3) by (simp add: expo_eq_iff [OF assms(1)])
  then show ?thesis
    using assms(1,4) by (simp add: round_to_def Let_def)
qed


subsection \<open>The constants and the two formulas\<close>

lemmas double_ops = double_mul_def double_div_def double_sub_def

lemma round_to_exactI:
  assumes "x = of_int m * 2 powi j" "\<bar>m\<bar> < 2 ^ p"
  shows "round_to p x = x"
  unfolding assms(1) by (rule round_to_exact [OF assms(2)])

lemma double_175_72: "to_double 175.72 = 6182597863449559 / 2 ^ 45"
proof -
  have "round_to 53 175.72 = 2 powi (7 - int 53 + 1) * of_int 6182597863449559"
    by (rule round_to_eval) (simp_all add: round_half_even_def Let_def)
  then show ?thesis by (simp add: to_double_def)
qed

lemma double_46_85: "to_double 46.85 = 6593551329447117 / 2 ^ 47"
proof -
  have "round_to 53 46.85 = 2 powi (5 - int 53 + 1) * of_int 6593551329447117"
    by (rule round_to_eval) (simp_all add: round_half_even_def Let_def)
  then show ?thesis by (simp add: to_double_def)
qed

lemma double_of_int:
  assumes "\<bar>m\<bar> < 2 ^ 53"
  shows "to_double (of_int m) = of_int m"
  unfolding to_double_def
  by (rule round_to_exactI [of _ m 0]) (use assms in simp_all)

lemma float_of_int:
  assumes "\<bar>m\<bar> < 2 ^ 24"
  shows "to_float (of_int m) = of_int m"
  unfolding to_float_def
  by (rule round_to_exactI [of _ m 0]) (use assms in simp_all)

lemma double_65536: "to_double 65536.0 = 65536"
  using double_of_int [of 65536] by simp

lemma double_125: "to_double 125.0 = 125"
  using double_of_int [of 125] by simp

lemma double_6: "to_double 6.0 = 6"
  using double_of_int [of 6] by simp

lemma float_sentinel: "to_float (- 999) = - 999"
  using float_of_int [of "- 999"] by simp

lemma double_of_nat:
  assumes "n < 65536"
  shows "to_double (real n) = real n"
  using double_of_int [of "int n"] assms by simp

text \<open>
  The temperature formula in floating point stays within \<open>10\<^sup>-\<^sup>5\<close> of its exact value: the
  three \<^verbatim>\<open>double\<close> roundings contribute less than \<open>2 powi (- 43)\<close>, the narrowing to \<^verbatim>\<open>float\<close> at
  most \<open>2 powi (- 17)\<close>.
\<close>

lemma temperature_error:
  assumes "n < 65536"
  shows "\<bar>to_float (double_sub (double_div (double_mul (to_double (real n)) (to_double 175.72))
                                             (to_double 65536.0))
                                 (to_double 46.85))
          - (real n * 175.72 / 65536.0 - 46.85)\<bar> \<le> 1 / 100000"
proof -
  define c1 :: real where "c1 = 6182597863449559 / 35184372088832"
  define c2 :: real where "c2 = 6593551329447117 / 140737488355328"
  define a where "a = real n * c1"
  define m where "m = to_double a"
  define q where "q = to_double (m / 65536)"
  define s where "s = to_double (q - c2)"
  define t where "t = to_float s"
  have k1: "to_double 175.72 = c1" and k2: "to_double 46.85 = c2"
    using double_175_72 double_46_85 by (simp_all add: c1_def c2_def)
  have n: "0 \<le> real n" "real n \<le> 65535"
    using assms by simp_all
  have a: "0 \<le> a" "a \<le> 11520000"
    using n unfolding a_def c1_def by linarith+
  have a': "\<bar>a - real n * (17572 / 100)\<bar> \<le> 1 / 1073741824"
    using n unfolding a_def c1_def by linarith
  have "\<bar>a\<bar> < 16777216"
    using a by linarith
  then have "\<bar>a\<bar> < 2 powi 24"
    by simp
  from round_to_error [OF this, of 53]
  have m: "\<bar>m - a\<bar> \<le> 1 / 1073741824"
    by (simp add: m_def to_double_def)
  have "\<bar>m / 65536\<bar> < 256"
    using m a by linarith
  then have "\<bar>m / 65536\<bar> < 2 powi 8"
    by simp
  from round_to_error [OF this, of 53]
  have q: "\<bar>q - m / 65536\<bar> \<le> 1 / 70368744177664"
    by (simp add: q_def to_double_def)
  have "\<bar>q - c2\<bar> < 256"
    using q m a unfolding c2_def by linarith
  then have "\<bar>q - c2\<bar> < 2 powi 8"
    by simp
  from round_to_error [OF this, of 53]
  have s: "\<bar>s - (q - c2)\<bar> \<le> 1 / 70368744177664"
    by (simp add: s_def to_double_def)
  have "\<bar>s\<bar> < 256"
    using s q m a unfolding c2_def by linarith
  then have "\<bar>s\<bar> < 2 powi 8"
    by simp
  from round_to_error [OF this, of 24]
  have t: "\<bar>t - s\<bar> \<le> 1 / 131072"
    by (simp add: t_def to_float_def)
  have "\<bar>t - (real n * (17572 / 100) / 65536 - 4685 / 100)\<bar> \<le> 1 / 100000"
    using t s q m a' unfolding c2_def by linarith
  then have "\<bar>t - (real n * 175.72 / 65536.0 - 46.85)\<bar> \<le> 1 / 100000"
    by simp
  then show ?thesis
    by (simp only: t_def s_def q_def m_def a_def k1 k2 double_65536 double_of_nat [OF assms]
        double_ops)
qed

text \<open>
  The humidity formula is exact: every intermediate value is an integer below \<open>2\<^sup>2\<^sup>4\<close>
  times \<open>2 powi (- 16)\<close>.
\<close>

lemma humidity_exact:
  assumes "n < 65536"
  shows "to_float (double_sub (double_div (double_mul (to_double (real n)) (to_double 125.0))
                                          (to_double 65536.0))
                              (to_double 6.0))
         = real n * 125.0 / 65536.0 - 6.0"
proof -
  have n: "int n < 65536" using assms by simp
  have p: "to_double (real n * 125) = real n * 125"
    using double_of_int [of "int n * 125"] n by simp
  have q: "to_double (real n * 125 / 65536) = real n * 125 / 65536"
    unfolding to_double_def
    by (rule round_to_exactI [of _ "int n * 125" "- 16"]) (use n in simp_all)
  have s: "to_double (real n * 125 / 65536 - 6) = real n * 125 / 65536 - 6"
    unfolding to_double_def
    by (rule round_to_exactI [of _ "int n * 125 - 393216" "- 16"])
       (use n in \<open>simp_all add: field_simps\<close>)
  have t: "to_float (real n * 125 / 65536 - 6) = real n * 125 / 65536 - 6"
    unfolding to_float_def
    by (rule round_to_exactI [of _ "int n * 125 - 393216" "- 16"])
       (use n in \<open>simp_all add: field_simps\<close>)
  show ?thesis
    unfolding double_ops double_125 double_65536 double_6 double_of_nat [OF assms] p q s t
    by simp
qed


text \<open>The temperature formula at the raw word 4, step by step.\<close>

lemma temperature_raw_4:
  "to_float (double_sub (double_div (double_mul (to_double (real (4 :: nat))) (to_double 175.72))
                                    (to_double 65536.0))
                        (to_double 46.85))
   = - 12278635 / 262144"
proof -
  have m: "to_double (4 * (6182597863449559 / 2 ^ 45)) = 6182597863449559 / 2 ^ 43"
    unfolding to_double_def
    using round_to_exactI [of "6182597863449559 / 2 ^ 43" 6182597863449559 "- 43" 53]
    by simp
  have q: "to_double (6182597863449559 / 2 ^ 43 / 65536) = 6182597863449559 / 2 ^ 59"
    unfolding to_double_def
    using round_to_exactI [of "6182597863449559 / 2 ^ 59" 6182597863449559 "- 59" 53]
    by simp
  have "round_to 53 (6182597863449559 / 2 ^ 59 - 6593551329447117 / 2 ^ 47)
      = 2 powi (5 - int 53 + 1) * of_int (- 6592041906140611)"
    by (rule round_to_eval) (simp_all add: round_half_even_def Let_def)
  then have s: "to_double (6182597863449559 / 2 ^ 59 - 6593551329447117 / 2 ^ 47)
      = - 6592041906140611 / 2 ^ 47"
    by (simp add: to_double_def)
  have "round_to 24 (- 6592041906140611 / 2 ^ 47) = 2 powi (5 - int 24 + 1) * of_int (- 12278635)"
    by (rule round_to_eval) (simp_all add: round_half_even_def Let_def)
  then have t: "to_float (- 6592041906140611 / 2 ^ 47) = - 12278635 / 262144"
    by (simp add: to_float_def)
  have n: "to_double (real (4 :: nat)) = 4"
    using double_of_nat [of 4] by simp
  show ?thesis
    unfolding double_ops double_175_72 double_46_85 double_65536 n m q s t ..
qed

section \<open>The public read functions\<close>

lemma unat_u16_less: "unat (x :: u16) < 65536"
  using unsigned_less [of x, where 'a = nat] by simp

lemma read_temperature_eq:
  "fst (htu21d_read_temperature w) =
     (if fst (read_value TRIGGER_TEMP_MEASURE_NOHOLD w) = 0 then - 999
      else to_float
             (double_sub
                (double_div
                   (double_mul (to_double (real (unat (fst (read_value TRIGGER_TEMP_MEASURE_NOHOLD w)))))
                               (to_double 175.72))
                   (to_double 65536.0))
                (to_double 46.85)))"
  by (simp add: htu21d_read_temperature_def float_sentinel split: prod.splits)

lemma read_humidity_eq:
  "fst (htu21d_read_humidity w) =
     (if fst (read_value TRIGGER_HUMD_MEASURE_NOHOLD w) = 0 then - 999
      else real (unat (fst (read_value TRIGGER_HUMD_MEASURE_NOHOLD w))) * 125.0 / 65536.0 - 6.0)"
proof -
  obtain raw w1 where r: "read_value TRIGGER_HUMD_MEASURE_NOHOLD w = (raw, w1)"
    by (cases "read_value TRIGGER_HUMD_MEASURE_NOHOLD w")
  show ?thesis
  proof (cases "raw = 0")
    case True
    then show ?thesis
      unfolding htu21d_read_humidity_def r by (simp add: float_sentinel)
  next
    case False
    have "fst (htu21d_read_humidity w) =
        to_float (double_sub (double_div (double_mul (to_double (real (unat raw))) (to_double 125.0))
                                         (to_double 65536.0))
                             (to_double 6.0))"
      unfolding htu21d_read_humidity_def r using False by (simp only: prod.case if_False fst_conv)
    also have "\<dots> = real (unat raw) * 125.0 / 65536.0 - 6.0"
      by (rule humidity_exact [OF unat_u16_less])
    finally show ?thesis
      using False by (simp only: r fst_conv if_False)
  qed
qed

lemma unat_pos:
  assumes "(x :: u16) \<noteq> 0"
  shows "0 < real (unat x)"
proof -
  have "0 < unat x"
    using assms by (simp add: unat_gt_0)
  then show ?thesis
    by (simp only: of_nat_0_less_iff)
qed

lemma unat_ge_1:
  assumes "(x :: u16) \<noteq> 0"
  shows "1 \<le> real (unat x)"
proof -
  have "1 \<le> unat x"
    using assms by (simp add: unat_gt_0 Suc_le_eq)
  then have "real 1 \<le> real (unat x)"
    by (rule of_nat_mono)
  then show ?thesis
    by (simp only: of_nat_1)
qed

text \<open>
  C3, as the code has it: for every nonzero raw value that \<^verbatim>\<open>read_value\<close> returns,
  \<^verbatim>\<open>htu21d_read_temperature\<close> returns \<open>raw * 175.72 / 65536.0 - 46.85\<close> as the C expression
  evaluates it, in \<^verbatim>\<open>double\<close> and narrowed to \<^verbatim>\<open>float\<close>, which is within \<open>0.00001\<close> of the exact
  value, and \<^verbatim>\<open>htu21d_read_humidity\<close> returns exactly \<open>raw * 125.0 / 65536.0 - 6.0\<close>; for the raw
  value 0 they return the sentinel \<open>-999\<close>.
\<close>

theorem read_functions_guarded_transform:
  "(fst (read_value TRIGGER_TEMP_MEASURE_NOHOLD w) \<noteq> 0 \<longrightarrow>
      fst (htu21d_read_temperature w) =
        to_float
          (double_sub
             (double_div
                (double_mul (to_double (real (unat (fst (read_value TRIGGER_TEMP_MEASURE_NOHOLD w)))))
                            (to_double 175.72))
                (to_double 65536.0))
             (to_double 46.85)) \<and>
      \<bar>fst (htu21d_read_temperature w) -
         (real (unat (fst (read_value TRIGGER_TEMP_MEASURE_NOHOLD w))) * 175.72 / 65536.0 - 46.85)\<bar>
        \<le> 1 / 100000) \<and>
   (fst (read_value TRIGGER_HUMD_MEASURE_NOHOLD w) \<noteq> 0 \<longrightarrow>
      fst (htu21d_read_humidity w) =
        real (unat (fst (read_value TRIGGER_HUMD_MEASURE_NOHOLD w))) * 125.0 / 65536.0 - 6.0) \<and>
   (fst (read_value TRIGGER_TEMP_MEASURE_NOHOLD w) = 0 \<longrightarrow>
      fst (htu21d_read_temperature w) = - 999) \<and>
   (fst (read_value TRIGGER_HUMD_MEASURE_NOHOLD w) = 0 \<longrightarrow>
      fst (htu21d_read_humidity w) = - 999)"
  using temperature_error [OF unat_u16_less, of "fst (read_value TRIGGER_TEMP_MEASURE_NOHOLD w)"]
  by (simp add: read_temperature_eq read_humidity_eq)

text \<open>
  C9: \<^verbatim>\<open>htu21d_read_temperature\<close> and \<^verbatim>\<open>htu21d_read_humidity\<close> return the sentinel \<open>-999\<close>
  exactly when \<^verbatim>\<open>read_value\<close> returns 0; the formula values for raw 0, \<open>-46.85\<close> degrees
  Celsius and \<open>-6.0\<close> %RH, are never returned, and neither is the \<^verbatim>\<open>float\<close> that the
  temperature formula gives at raw 0.
\<close>

theorem sentinel_iff_raw_zero:
  "(fst (htu21d_read_temperature w) = - 999 \<longleftrightarrow>
      fst (read_value TRIGGER_TEMP_MEASURE_NOHOLD w) = 0) \<and>
   (fst (htu21d_read_humidity w) = - 999 \<longleftrightarrow>
      fst (read_value TRIGGER_HUMD_MEASURE_NOHOLD w) = 0) \<and>
   fst (htu21d_read_temperature w) \<noteq> - 46.85 \<and>
   fst (htu21d_read_humidity w) \<noteq> - 6.0 \<and>
   fst (htu21d_read_temperature w) \<noteq>
     to_float (double_sub (double_div (double_mul (to_double 0) (to_double 175.72))
                                      (to_double 65536.0))
                          (to_double 46.85))"
proof -
  let ?t = "fst (read_value TRIGGER_TEMP_MEASURE_NOHOLD w)"
  let ?h = "fst (read_value TRIGGER_HUMD_MEASURE_NOHOLD w)"
  let ?T = "\<lambda>n. to_float (double_sub (double_div (double_mul (to_double (real n)) (to_double 175.72))
                                               (to_double 65536.0))
                                   (to_double 46.85))"
  have z: "\<bar>?T 0 - (- 4685 / 100)\<bar> \<le> 1 / 100000"
    using temperature_error [of 0] by simp
  have e: "\<bar>?T (unat ?t) - (real (unat ?t) * (17572 / 100) / 65536 - 4685 / 100)\<bar> \<le> 1 / 100000"
    using temperature_error [OF unat_u16_less, of ?t] by simp
  have t: "- 46849 / 1000 < ?T (unat ?t)" if "?t \<noteq> 0"
  proof -
    have "1 \<le> real (unat ?t)"
      by (rule unat_ge_1 [OF that])
    with e show ?thesis by linarith
  qed
  have t0: "?T 0 < - 46849 / 1000" "- 47 < ?T 0"
    using z by linarith+
  have h: "- 6 < real (unat ?h) * 125.0 / 65536.0 - 6.0" if "?h \<noteq> 0"
    using unat_pos [OF that] by simp
  have temp: "fst (htu21d_read_temperature w) = (if ?t = 0 then - 999 else ?T (unat ?t))"
    by (rule read_temperature_eq)
  have hum: "fst (htu21d_read_humidity w) =
      (if ?h = 0 then - 999 else real (unat ?h) * 125.0 / 65536.0 - 6.0)"
    by (rule read_humidity_eq)
  have c1: "fst (htu21d_read_temperature w) = - 999 \<longleftrightarrow> ?t = 0"
  proof (cases "?t = 0")
    case True
    then show ?thesis by (simp add: temp)
  next
    case False
    from t [OF False] have "?T (unat ?t) \<noteq> - 999" by linarith
    with False show ?thesis by (simp only: temp if_False simp_thms)
  qed
  have c2: "fst (htu21d_read_humidity w) = - 999 \<longleftrightarrow> ?h = 0"
  proof (cases "?h = 0")
    case True
    then show ?thesis by (simp add: hum)
  next
    case False
    from h [OF False] have "real (unat ?h) * 125.0 / 65536.0 - 6.0 \<noteq> - 999" by linarith
    with False show ?thesis by (simp only: hum if_False simp_thms)
  qed
  have c3: "fst (htu21d_read_temperature w) \<noteq> - 46.85"
  proof (cases "?t = 0")
    case True
    then have "fst (htu21d_read_temperature w) = - 999" by (simp add: temp)
    then show ?thesis by simp
  next
    case False
    from t [OF False] have "?T (unat ?t) \<noteq> - 46.85" by simp
    with False show ?thesis by (simp only: temp if_False simp_thms)
  qed
  have c4: "fst (htu21d_read_humidity w) \<noteq> - 6.0"
  proof (cases "?h = 0")
    case True
    then have "fst (htu21d_read_humidity w) = - 999" by (simp add: hum)
    then show ?thesis by simp
  next
    case False
    from h [OF False] have "real (unat ?h) * 125.0 / 65536.0 - 6.0 \<noteq> - 6.0" by simp
    with False show ?thesis by (simp only: hum if_False simp_thms)
  qed
  have c5: "fst (htu21d_read_temperature w) \<noteq> ?T 0"
  proof (cases "?t = 0")
    case True
    then have "fst (htu21d_read_temperature w) = - 999" by (simp add: temp)
    with t0(2) show ?thesis by linarith
  next
    case False
    from t [OF False] t0(1) have "?T (unat ?t) \<noteq> ?T 0" by linarith
    with False show ?thesis by (simp only: temp if_False simp_thms)
  qed
  have "real 0 = 0"
    by simp
  then have "?T 0 =
      to_float (double_sub (double_div (double_mul (to_double 0) (to_double 175.72))
                                       (to_double 65536.0))
                           (to_double 46.85))"
    by (rule arg_cong [where f = "\<lambda>r. to_float (double_sub (double_div (double_mul (to_double r) (to_double 175.72)) (to_double 65536.0)) (to_double 46.85))"])
  with c5 have c6: "fst (htu21d_read_temperature w) \<noteq>
      to_float (double_sub (double_div (double_mul (to_double 0) (to_double 175.72))
                                       (to_double 65536.0))
                           (to_double 46.85))"
    by (simp only: simp_thms)
  from c1 c2 c3 c4 c6 show ?thesis
    by (intro conjI)
qed

subsection \<open>Concrete readings\<close>

lemma zero_crc: "is_crc_valid 0 0"
proof -
  have "clmul 0 0x131 = push_bit 8 (unat (0 :: u16)) XOR unat (0 :: u8)"
    by simp
  then show ?thesis
    unfolding crc_valid_iff ..
qed

lemma faint_crc: "is_crc_valid 0x0004 0xC4"
proof -
  have "clmul 4 0x131 = push_bit 8 (unat (0x0004 :: u16)) XOR unat (0xC4 :: u8)"
    by (simp add: clmul.simps)
  then show ?thesis
    unfolding crc_valid_iff ..
qed

lemma zero_reading_raw:
  "command \<noteq> READ_USER_REG \<Longrightarrow> fst (read_value command zero_reading) = 0"
proof -
  assume c: "command \<noteq> READ_USER_REG"
  have ok: "read_ok zero_reading"
    by (simp add: read_ok_def zero_reading_def nominal_def)
  have rx: "sensor_reply (zero_reading\<lparr>pending := command\<rparr>) 3 = [0, 0, 0]"
    using c by (simp add: sensor_reply_def zero_reading_def nominal_def numeral_3_eq_3)
  show ?thesis
    by (simp add: read_value_ok [OF ok] rx Let_def rx_byte_def)
qed

lemma nominal_raw:
  "command \<noteq> READ_USER_REG \<Longrightarrow> fst (read_value command nominal) = 0x6838"
proof -
  assume c: "command \<noteq> READ_USER_REG"
  have ok: "read_ok nominal"
    by (simp add: read_ok_def nominal_def)
  have rx: "sensor_reply (nominal\<lparr>pending := command\<rparr>) 3 = [0x68, 0x3A, 0x7C]"
    using c by (simp add: sensor_reply_def nominal_def numeral_3_eq_3)
  show ?thesis
    by (simp add: read_value_ok [OF ok] rx Let_def rx_byte_def)
qed

lemma faint_reading_raw:
  "command \<noteq> READ_USER_REG \<Longrightarrow> fst (read_value command faint_reading) = 4"
proof -
  assume c: "command \<noteq> READ_USER_REG"
  have ok: "read_ok faint_reading"
    by (simp add: read_ok_def faint_reading_def nominal_def)
  have rx: "sensor_reply (faint_reading\<lparr>pending := command\<rparr>) 3 = [0x00, 0x04, 0xC4]"
    using c by (simp add: sensor_reply_def faint_reading_def nominal_def numeral_3_eq_3)
  show ?thesis
    by (simp add: read_value_ok [OF ok] rx Let_def rx_byte_def)
qed

text \<open>
  C3 as stated fails at raw value 0: with a sensor that delivers the all-zero word, both
  reads give 0 and the public functions return \<open>-999\<close>, which is neither
  \<open>0 * 175.72 / 65536.0 - 46.85\<close> (exactly or as the \<^verbatim>\<open>float\<close> the C expression gives) nor
  \<open>0 * 125.0 / 65536.0 - 6.0\<close>.
\<close>

theorem raw_zero_returns_sentinel:
  "fst (read_value TRIGGER_TEMP_MEASURE_NOHOLD zero_reading) = 0 \<and>
   fst (read_value TRIGGER_HUMD_MEASURE_NOHOLD zero_reading) = 0 \<and>
   fst (htu21d_read_temperature zero_reading) \<noteq> real (unat (0 :: u16)) * 175.72 / 65536.0 - 46.85 \<and>
   fst (htu21d_read_humidity zero_reading) \<noteq> real (unat (0 :: u16)) * 125.0 / 65536.0 - 6.0 \<and>
   fst (htu21d_read_temperature zero_reading) \<noteq>
     to_float (double_sub (double_div (double_mul (to_double 0) (to_double 175.72))
                                      (to_double 65536.0))
                          (to_double 46.85)) \<and>
   fst (htu21d_read_temperature zero_reading) = - 999 \<and>
   fst (htu21d_read_humidity zero_reading) = - 999"
proof -
  have t: "fst (read_value TRIGGER_TEMP_MEASURE_NOHOLD zero_reading) = 0"
    by (rule zero_reading_raw) (simp add: TRIGGER_TEMP_MEASURE_NOHOLD_def READ_USER_REG_def)
  have h: "fst (read_value TRIGGER_HUMD_MEASURE_NOHOLD zero_reading) = 0"
    by (rule zero_reading_raw) (simp add: TRIGGER_HUMD_MEASURE_NOHOLD_def READ_USER_REG_def)
  have "\<bar>to_float (double_sub (double_div (double_mul (to_double 0) (to_double 175.72))
                                          (to_double 65536.0))
                              (to_double 46.85)) - (- 4685 / 100)\<bar> \<le> 1 / 100000"
    using temperature_error [of 0] by simp
  then have "to_float (double_sub (double_div (double_mul (to_double 0) (to_double 175.72))
                                             (to_double 65536.0))
                                 (to_double 46.85)) \<noteq> - 999"
    by linarith
  then show ?thesis
    by (simp add: t h read_temperature_eq read_humidity_eq)
qed

text \<open>
  The faint reading \<^verbatim>\<open>0x0004\<close>: the temperature is the \<^verbatim>\<open>float\<close> \<open>-12278635 / 2\<^sup>1\<^sup>8\<close>, which is
  not the exact value of the formula, and the humidity is exact. The all-zero reading
  gives the sentinel.
\<close>

theorem read_functions_guarded_transform_witness:
  "fst (read_value TRIGGER_TEMP_MEASURE_NOHOLD faint_reading) \<noteq> 0 \<and>
   fst (htu21d_read_temperature faint_reading) = - 12278635 / 262144 \<and>
   \<bar>fst (htu21d_read_temperature faint_reading) - (4 * 175.72 / 65536.0 - 46.85)\<bar> \<le> 1 / 100000 \<and>
   fst (read_value TRIGGER_HUMD_MEASURE_NOHOLD faint_reading) \<noteq> 0 \<and>
   fst (htu21d_read_humidity faint_reading) = 4 * 125.0 / 65536.0 - 6.0 \<and>
   fst (read_value TRIGGER_TEMP_MEASURE_NOHOLD zero_reading) = 0 \<and>
   fst (htu21d_read_temperature zero_reading) = - 999 \<and>
   fst (read_value TRIGGER_HUMD_MEASURE_NOHOLD zero_reading) = 0 \<and>
   fst (htu21d_read_humidity zero_reading) = - 999"
proof -
  have t: "fst (read_value TRIGGER_TEMP_MEASURE_NOHOLD faint_reading) = 4"
    by (rule faint_reading_raw) (simp add: TRIGGER_TEMP_MEASURE_NOHOLD_def READ_USER_REG_def)
  have h: "fst (read_value TRIGGER_HUMD_MEASURE_NOHOLD faint_reading) = 4"
    by (rule faint_reading_raw) (simp add: TRIGGER_HUMD_MEASURE_NOHOLD_def READ_USER_REG_def)
  have tz: "fst (read_value TRIGGER_TEMP_MEASURE_NOHOLD zero_reading) = 0"
    by (rule zero_reading_raw) (simp add: TRIGGER_TEMP_MEASURE_NOHOLD_def READ_USER_REG_def)
  have hz: "fst (read_value TRIGGER_HUMD_MEASURE_NOHOLD zero_reading) = 0"
    by (rule zero_reading_raw) (simp add: TRIGGER_HUMD_MEASURE_NOHOLD_def READ_USER_REG_def)
  have u: "unat (4 :: u16) = 4" by simp
  from read_functions_guarded_transform [of faint_reading]
    read_functions_guarded_transform [of zero_reading]
  show ?thesis
    unfolding t h tz hz u temperature_raw_4 by simp
qed

text \<open>The sentinel appears for the all-zero reading and not for the data sheet's.\<close>

theorem sentinel_iff_raw_zero_witness:
  "fst (htu21d_read_temperature zero_reading) = - 999 \<and>
   fst (htu21d_read_humidity zero_reading) = - 999 \<and>
   fst (htu21d_read_temperature nominal) \<noteq> - 999 \<and>
   fst (htu21d_read_humidity nominal) \<noteq> - 999"
proof -
  have t: "fst (read_value TRIGGER_TEMP_MEASURE_NOHOLD nominal) = 0x6838"
    by (rule nominal_raw) (simp add: TRIGGER_TEMP_MEASURE_NOHOLD_def READ_USER_REG_def)
  have h: "fst (read_value TRIGGER_HUMD_MEASURE_NOHOLD nominal) = 0x6838"
    by (rule nominal_raw) (simp add: TRIGGER_HUMD_MEASURE_NOHOLD_def READ_USER_REG_def)
  have tz: "fst (read_value TRIGGER_TEMP_MEASURE_NOHOLD zero_reading) = 0"
    by (rule zero_reading_raw) (simp add: TRIGGER_TEMP_MEASURE_NOHOLD_def READ_USER_REG_def)
  have hz: "fst (read_value TRIGGER_HUMD_MEASURE_NOHOLD zero_reading) = 0"
    by (rule zero_reading_raw) (simp add: TRIGGER_HUMD_MEASURE_NOHOLD_def READ_USER_REG_def)
  from sentinel_iff_raw_zero [of nominal] sentinel_iff_raw_zero [of zero_reading]
  show ?thesis
    by (simp add: t h tz hz)
qed

section \<open>Resolution field of the user register\<close>

lemma read_user_register_ok:
  assumes "\<And>k. link_ok w k" "\<And>k. xfer_ret w k = ESP_OK"
  shows "htu21d_read_user_register w =
     (user_reg w,
      w\<lparr>links := links w + 2, xfers := xfers w + 2, pending := READ_USER_REG,
        trace := trace w @ [Transfer (port w) [I2c_start, I2c_write 0x80 True, I2c_write READ_USER_REG True, I2c_stop] 1000,
                            Transfer (port w) [I2c_start, I2c_write 0x81 True, I2c_read 0x01, I2c_stop] 1000]\<rparr>)"
  using assms
  by (simp add: htu21d_read_user_register_def io_defs Let_def sensor_simps sensor_reply_def
      rx_byte_def)

lemma write_user_register_ok:
  assumes "\<And>k. link_ok w k" "\<And>k. xfer_ret w k = ESP_OK"
  shows "htu21d_write_user_register v w =
     (HTU21D_ERR_OK,
      w\<lparr>links := links w + 1, xfers := xfers w + 1, pending := WRITE_USER_REG, user_reg := v,
        trace := trace w @ [Transfer (port w) [I2c_start, I2c_write 0x80 True, I2c_write WRITE_USER_REG True, I2c_write v True, I2c_stop] 1000]\<rparr>)"
  using assms
  by (simp add: htu21d_write_user_register_def io_defs Let_def sensor_simps err_defs)

lemma keep_mask:
  "((a AND m) OR (b AND m)) AND m = (a AND m) OR (b AND (m :: u8))"
  by (rule bit_eqI) (auto simp: bit_and_iff bit_or_iff)

lemma set_resolution_ok:
  assumes "\<And>k. link_ok w k" "\<And>k. xfer_ret w k = ESP_OK"
  shows "user_reg (snd (htu21d_set_resolution r w)) =
           (user_reg w AND 0b10000001) OR (r AND 0b10000001)"
    and "link_ok (snd (htu21d_set_resolution r w)) k"
    and "xfer_ret (snd (htu21d_set_resolution r w)) k = ESP_OK"
  using assms
  by (simp_all add: htu21d_set_resolution_def read_user_register_ok write_user_register_ok
      Let_def)

lemma get_resolution_ok:
  assumes "\<And>k. link_ok w k" "\<And>k. xfer_ret w k = ESP_OK"
  shows "fst (htu21d_get_resolution w) = user_reg w AND 0b10000001"
  using assms
  by (simp add: htu21d_get_resolution_def read_user_register_ok)

lemma set_then_get_resolution:
  assumes "\<And>k. link_ok w k" "\<And>k. xfer_ret w k = ESP_OK"
  shows "fst (htu21d_get_resolution (snd (htu21d_set_resolution r w))) =
           (user_reg w AND 0b10000001) OR (r AND 0b10000001)"
proof -
  have "fst (htu21d_get_resolution (snd (htu21d_set_resolution r w))) =
      user_reg (snd (htu21d_set_resolution r w)) AND 0b10000001"
    by (rule get_resolution_ok) (rule set_resolution_ok [OF assms])+
  also have "\<dots> = ((user_reg w AND 0b10000001) OR (r AND 0b10000001)) AND 0b10000001"
    by (simp only: set_resolution_ok(1) [OF assms])
  also have "\<dots> = (user_reg w AND 0b10000001) OR (r AND 0b10000001)"
    by (rule keep_mask)
  finally show ?thesis .
qed

text \<open>
  C4 asks that \<^verbatim>\<open>htu21d_set_resolution(r)\<close> followed by \<^verbatim>\<open>htu21d_get_resolution()\<close> yield the
  resolution bits of \<open>r\<close> whatever the register held before. The code ORs the new bits onto
  the old resolution bits instead of replacing them (\<open>set_then_get_resolution\<close>). From the
  register's reset value, setting \<^verbatim>\<open>0x80\<close> and then \<^verbatim>\<open>0x01\<close> reads back \<^verbatim>\<open>0x81\<close>.
\<close>

theorem set_resolution_keeps_old_bits:
  "fst (htu21d_get_resolution
          (snd (htu21d_set_resolution 0x01 (snd (htu21d_set_resolution 0x80 nominal))))) = 0x81 \<and>
   fst (htu21d_get_resolution
          (snd (htu21d_set_resolution 0x01 (snd (htu21d_set_resolution 0x80 nominal)))))
     \<noteq> 0x01 AND 0b10000001"
proof -
  have n: "\<And>k. link_ok nominal k" "\<And>k. xfer_ret nominal k = ESP_OK"
    by (simp_all add: nominal_def)
  let ?w = "snd (htu21d_set_resolution 0x80 nominal)"
  have w: "\<And>k. link_ok ?w k" "\<And>k. xfer_ret ?w k = ESP_OK"
    by (rule set_resolution_ok [OF n])+
  have "user_reg ?w = (user_reg nominal AND 0b10000001) OR (0x80 AND 0b10000001)"
    by (rule set_resolution_ok(1) [OF n])
  moreover have "user_reg nominal = 0x02"
    by (simp add: nominal_def)
  ultimately have "user_reg ?w = 0x80"
    by simp
  then have "fst (htu21d_get_resolution (snd (htu21d_set_resolution 0x01 ?w))) = 0x81"
    by (simp add: set_then_get_resolution [OF w])
  then show ?thesis
    by simp
qed

end
